theory Spec2Isabelle
  imports Main "HOL-Library.Sublist" "HOL-Library.AList" "HOL-Library.Char_ord"
    "HOL-Library.List_Lexorder"
begin

section \<open>deps-docs: copying README and LICENSE files of the declared dependencies\<close>

text \<open>
  The program (\<^verbatim>\<open>src/bin.ts\<close>) reads \<^verbatim>\<open>package.json\<close> in the current directory, merges
  the keys of \<^verbatim>\<open>dependencies\<close> and \<^verbatim>\<open>devDependencies\<close>, and for each name copies
  \<^verbatim>\<open>node_modules/<name>/README.md\<close> and the files matching \<^verbatim>\<open>licen[cs]e*\<close> into
  \<^verbatim>\<open><outdir>/<name>/\<close>. The embedding below makes the file system, the console and the
  thrown errors explicit: every function of the source takes the state it reads and returns the
  state it leaves.
\<close>

subsection \<open>Text encoding: what \<^verbatim>\<open>readFile(p, "utf-8")\<close> and \<^verbatim>\<open>writeFile(p, s, "utf-8")\<close> do to bytes\<close>

text \<open>
  A file holds bytes; the program reads it as a string and writes the string back. A string is
  modelled as its list of code points. Decoding follows the UTF-8 decoder of the runtime: an
  ill-formed sequence yields U+FFFD and decoding resumes at the offending byte. Encoding writes
  the shortest form of each code point, and U+FFFD for a lone surrogate.
\<close>

type_synonym byte = nat
type_synonym ustring = "nat list"
type_synonym dstate = "nat \<times> nat \<times> nat \<times> nat"

definition utf8_init :: dstate where
  "utf8_init = (0, 0, 0x80, 0xBF)"

definition utf8_lead :: "byte \<Rightarrow> nat list \<times> dstate" where
  "utf8_lead b =
     (if b < 0x80 then ([b], utf8_init)
      else if 0xC2 \<le> b \<and> b \<le> 0xDF then ([], (b - 0xC0, 1, 0x80, 0xBF))
      else if 0xE0 \<le> b \<and> b \<le> 0xEF then
        ([], (b - 0xE0, 2, if b = 0xE0 then 0xA0 else 0x80, if b = 0xED then 0x9F else 0xBF))
      else if 0xF0 \<le> b \<and> b \<le> 0xF4 then
        ([], (b - 0xF0, 3, if b = 0xF0 then 0x90 else 0x80, if b = 0xF4 then 0x8F else 0xBF))
      else ([0xFFFD], utf8_init))"

fun utf8_step :: "dstate \<Rightarrow> byte \<Rightarrow> nat list \<times> dstate" where
  "utf8_step (cp, needed, lo, hi) b =
     (if needed = 0 then utf8_lead b
      else if b < lo \<or> hi < b then (0xFFFD # fst (utf8_lead b), snd (utf8_lead b))
      else if needed = 1 then ([cp * 64 + (b - 0x80)], utf8_init)
      else ([], (cp * 64 + (b - 0x80), needed - 1, 0x80, 0xBF)))"

fun utf8_run :: "dstate \<Rightarrow> byte list \<Rightarrow> ustring" where
  "utf8_run (cp, needed, lo, hi) [] = (if needed = 0 then [] else [0xFFFD])"
| "utf8_run st (b # bs) = fst (utf8_step st b) @ utf8_run (snd (utf8_step st b)) bs"

definition utf8_decode :: "byte list \<Rightarrow> ustring" where
  "utf8_decode bs = utf8_run utf8_init bs"

definition utf8_encode_cp :: "nat \<Rightarrow> byte list" where
  "utf8_encode_cp cp =
     (if cp < 0x80 then [cp]
      else if cp < 0x800 then [0xC0 + cp div 64, 0x80 + cp mod 64]
      else if 0xD800 \<le> cp \<and> cp \<le> 0xDFFF then [0xEF, 0xBF, 0xBD]
      else if cp < 0x10000 then [0xE0 + cp div 4096, 0x80 + cp div 64 mod 64, 0x80 + cp mod 64]
      else [0xF0 + cp div 262144, 0x80 + cp div 4096 mod 64, 0x80 + cp div 64 mod 64,
            0x80 + cp mod 64])"

definition utf8_encode :: "ustring \<Rightarrow> byte list" where
  "utf8_encode t = concat (map utf8_encode_cp t)"

definition scalar_value :: "nat \<Rightarrow> bool" where
  "scalar_value cp = (cp < 0x110000 \<and> \<not> (0xD800 \<le> cp \<and> cp \<le> 0xDFFF))"

subsection \<open>Paths: \<^verbatim>\<open>join\<close> of \<^verbatim>\<open>node:path\<close> on an absolute base\<close>

text \<open>
  \<^verbatim>\<open>projectRoot = process.cwd()\<close> is absolute, so every path the program builds is absolute. A
  path is the list of its components below the root. \<^verbatim>\<open>join\<close> concatenates its arguments with
  \<^verbatim>\<open>/\<close> and normalises: empty and \<^verbatim>\<open>.\<close> segments vanish, \<^verbatim>\<open>..\<close> removes the component before
  it and stays at the root when there is none.
\<close>

type_synonym path = "string list"

fun segments :: "string \<Rightarrow> string list" where
  "segments [] = [[]]"
| "segments (c # cs) =
     (if c = CHR ''/'' then [] # segments cs
      else (case segments cs of [] \<Rightarrow> [[c]] | s # ss \<Rightarrow> (c # s) # ss))"

fun normalize_onto :: "path \<Rightarrow> string list \<Rightarrow> path" where
  "normalize_onto base [] = base"
| "normalize_onto base (s # ss) =
     (if s = [] \<or> s = ''.'' then normalize_onto base ss
      else if s = ''..'' then normalize_onto (butlast base) ss
      else normalize_onto (base @ [s]) ss)"

definition join :: "path \<Rightarrow> string list \<Rightarrow> path" where
  "join base args = normalize_onto base (concat (map segments args))"

subsection \<open>The file system and the calls of \<^verbatim>\<open>node:fs/promises\<close> the program makes\<close>

datatype error = ENOENT | EISDIR | EEXIST | ENOTDIR | EINVAL | ENAMETOOLONG | EACCES
  | SyntaxError | TypeError

datatype node = File "byte list" | Dir

text \<open>
  What the program takes from the platform it runs on: how \<^verbatim>\<open>glob\<close> compares letters, whether
  listing a missing directory throws, and which directories the operating system refuses to
  create.
\<close>

record platform =
  nocase :: bool
  readdir_throws :: bool
  mkdir_denied :: "path \<Rightarrow> bool"

text \<open>
  The file system is an association list from paths to nodes; the root always exists and is a
  directory. A write replaces the entry of its path or adds one.
\<close>

type_synonym filesystem = "(path \<times> node) list"

definition lookup :: "filesystem \<Rightarrow> path \<Rightarrow> node option" where
  "lookup fs p = (if p = [] then Some Dir else map_of fs p)"

definition is_dir :: "filesystem \<Rightarrow> path \<Rightarrow> bool" where
  "is_dir fs p = (lookup fs p = Some Dir)"

definition is_file :: "filesystem \<Rightarrow> path \<Rightarrow> bool" where
  "is_file fs p = (case lookup fs p of Some (File b) \<Rightarrow> True | _ \<Rightarrow> False)"

text \<open>\<^verbatim>\<open>access(p)\<close>: resolves when the path exists, throws otherwise.\<close>

definition access :: "filesystem \<Rightarrow> path \<Rightarrow> error + unit" where
  "access fs p = (case lookup fs p of None \<Rightarrow> Inl ENOENT | Some n \<Rightarrow> Inr ())"

text \<open>\<^verbatim>\<open>readFile(p, "utf-8")\<close>: the decoded content of a regular file.\<close>

definition readFile :: "filesystem \<Rightarrow> path \<Rightarrow> error + ustring" where
  "readFile fs p =
     (case lookup fs p of
        None \<Rightarrow> Inl ENOENT
      | Some Dir \<Rightarrow> Inl EISDIR
      | Some (File bytes) \<Rightarrow> Inr (utf8_decode bytes))"

text \<open>
  \<^verbatim>\<open>writeFile(p, s, "utf-8")\<close>: creates or truncates the regular file \<open>p\<close> in an existing
  directory; fails on a directory and where the parent is no directory.
\<close>

definition writeFile :: "filesystem \<Rightarrow> path \<Rightarrow> ustring \<Rightarrow> error + filesystem" where
  "writeFile fs p content =
     (if is_dir fs p then Inl EISDIR
      else if is_file fs (butlast p) then Inl ENOTDIR
      else if \<not> is_dir fs (butlast p) then Inl ENOENT
      else Inr (AList.update p (File (utf8_encode content)) fs))"

text \<open>
  \<^verbatim>\<open>mkdir(p, { recursive: true })\<close>: creates \<open>p\<close> and its missing ancestors and succeeds when the
  directory is already there. It throws, creating nothing,
  \<^item> when a component of \<open>p\<close> holds a NUL byte or is longer than 255 bytes;
  \<^item> when \<open>p\<close> or an ancestor is a regular file;
  \<^item> when a directory it would have to create is one the operating system refuses to create,
    for whatever reason (no write permission on the parent, a read-only file system, no space
    left, a path longer than the system allows): the predicate \<open>mkdir_denied\<close> of the platform.
\<close>

definition mkdir_one :: "filesystem \<Rightarrow> path \<Rightarrow> filesystem" where
  "mkdir_one fs q = (if lookup fs q = None then AList.update q Dir fs else fs)"

definition mkdir :: "platform \<Rightarrow> filesystem \<Rightarrow> path \<Rightarrow> error + filesystem" where
  "mkdir pf fs p =
     (if list_ex (\<lambda>s. CHR 0x00 \<in> set s) p then Inl EINVAL
      else if list_ex (\<lambda>s. 255 < length s) p then Inl ENAMETOOLONG
      else if is_file fs p then Inl EEXIST
      else if list_ex (is_file fs) (prefixes p) then Inl ENOTDIR
      else if list_ex (\<lambda>q. lookup fs q = None \<and> mkdir_denied pf q) (prefixes p) then Inl EACCES
      else Inr (foldl mkdir_one fs (prefixes p)))"

text \<open>
  The entries of a directory, by name. The order in which the operating system lists a
  directory is not specified; the model lists in ascending order.
\<close>

definition readdir :: "filesystem \<Rightarrow> path \<Rightarrow> string list" where
  "readdir fs d = sort (remdups (map last (filter (\<lambda>p. p \<noteq> [] \<and> butlast p = d) (map fst fs))))"

subsection \<open>\<^verbatim>\<open>glob(pattern, { cwd })\<close>\<close>

text \<open>
  The one pattern of the program, \<^verbatim>\<open>licen[cs]e*\<close>, has literal characters, a bracket class and
  a star, and no \<^verbatim>\<open>/\<close>: it is matched against the names of the entries of \<open>cwd\<close>. The runtime
  compares case-insensitively on Windows and macOS and case-sensitively elsewhere (the flag
  \<open>nocase\<close> of the platform); whether listing a directory that is not there throws or yields
  nothing is the flag \<open>readdir_throws\<close>.
\<close>

datatype glob_part = Lit char | Class "char list" | Star

fun parse_parts :: "char list option \<Rightarrow> string \<Rightarrow> glob_part list" where
  "parse_parts None [] = []"
| "parse_parts (Some cls) [] = [Class cls]"
| "parse_parts None (c # cs) =
     (if c = CHR ''*'' then Star # parse_parts None cs
      else if c = CHR ''['' then parse_parts (Some []) cs
      else Lit c # parse_parts None cs)"
| "parse_parts (Some cls) (c # cs) =
     (if c = CHR '']'' then Class cls # parse_parts None cs
      else parse_parts (Some (cls @ [c])) cs)"

definition parse_pattern :: "string \<Rightarrow> glob_part list" where
  "parse_pattern s = parse_parts None s"

definition to_upper :: "char \<Rightarrow> char" where
  "to_upper c =
     (case map_of (zip ''abcdefghijklmnopqrstuvwxyz'' ''ABCDEFGHIJKLMNOPQRSTUVWXYZ'') c of
        Some u \<Rightarrow> u
      | None \<Rightarrow> c)"

definition same_char :: "bool \<Rightarrow> char \<Rightarrow> char \<Rightarrow> bool" where
  "same_char ci c d = (if ci then to_upper c = to_upper d else c = d)"

fun glob_match :: "bool \<Rightarrow> glob_part list \<Rightarrow> string \<Rightarrow> bool" where
  "glob_match ci [] s = (s = [])"
| "glob_match ci (Lit c # ps) [] = False"
| "glob_match ci (Lit c # ps) (d # ds) = (same_char ci c d \<and> glob_match ci ps ds)"
| "glob_match ci (Class cs # ps) [] = False"
| "glob_match ci (Class cs # ps) (d # ds) =
     (list_ex (\<lambda>c. same_char ci c d) cs \<and> glob_match ci ps ds)"
| "glob_match ci (Star # ps) [] = glob_match ci ps []"
| "glob_match ci (Star # ps) (d # ds) =
     (glob_match ci ps (d # ds) \<or> glob_match ci (Star # ps) ds)"

definition glob :: "platform \<Rightarrow> filesystem \<Rightarrow> string \<Rightarrow> path \<Rightarrow> error + string list" where
  "glob pf fs pattern cwd =
     (if is_dir fs cwd
      then Inr (filter (glob_match (nocase pf) (parse_pattern pattern)) (readdir fs cwd))
      else if readdir_throws pf then Inl (if is_file fs cwd then ENOTDIR else ENOENT)
      else Inr [])"

text \<open>
  \<^verbatim>\<open>getLicenseFiles\<close> (lines 46 to 56): the names \<^verbatim>\<open>glob\<close> yields, or none when it throws.
\<close>

definition getLicenseFiles :: "platform \<Rightarrow> filesystem \<Rightarrow> path \<Rightarrow> string list" where
  "getLicenseFiles pf fs packageDir =
     (case glob pf fs ''licen[cs]e*'' packageDir of
        Inr licenseFiles \<Rightarrow> licenseFiles
      | Inl e \<Rightarrow> [])"

text \<open>\<^verbatim>\<open>fileExists\<close> (lines 37 to 44).\<close>

definition fileExists :: "filesystem \<Rightarrow> path \<Rightarrow> bool" where
  "fileExists fs filePath = (case access fs filePath of Inr u \<Rightarrow> True | Inl e \<Rightarrow> False)"

subsection \<open>The parsed manifest\<close>

text \<open>
  \<^verbatim>\<open>JSON.parse\<close> yields any JSON value; the interface \<^verbatim>\<open>PackageJson\<close> is erased at run time. An
  object is the list of its properties in creation order. The parser itself is a parameter of
  the model (\<open>None\<close> is its \<^verbatim>\<open>SyntaxError\<close>).
\<close>

datatype json = JNull | JBool bool | JNumber string | JString string | JArray "json list"
  | JObject "(string \<times> json) list"

text \<open>Setting a property keeps the place of an existing key and appends a new one.\<close>

definition set_property :: "(string \<times> json) list \<Rightarrow> string \<times> json \<Rightarrow> (string \<times> json) list" where
  "set_property props kv = AList.update (fst kv) (snd kv) props"

fun digit_string :: "nat \<Rightarrow> string" where
  "digit_string n =
     (if n < 10 then [''0123456789'' ! n]
      else digit_string (n div 10) @ [''0123456789'' ! (n mod 10)])"

text \<open>
  The own enumerable properties a spread \<^verbatim>\<open>{ ...v }\<close> copies: those of an object; the indexed
  characters of a string and elements of an array; none for \<^verbatim>\<open>undefined\<close>, \<^verbatim>\<open>null\<close>, a number
  or a boolean.
\<close>

fun own_properties :: "json option \<Rightarrow> (string \<times> json) list" where
  "own_properties (Some (JObject props)) = foldl set_property [] props"
| "own_properties (Some (JString s)) =
     map (\<lambda>i. (digit_string i, JString [s ! i])) [0..<length s]"
| "own_properties (Some (JArray xs)) = map (\<lambda>i. (digit_string i, xs ! i)) [0..<length xs]"
| "own_properties v = []"

text \<open>
  \<^verbatim>\<open>packageJson.dependencies\<close>: a \<^verbatim>\<open>TypeError\<close> on \<^verbatim>\<open>null\<close>, \<^verbatim>\<open>undefined\<close> where the value has
  no such property.
\<close>

fun get_property :: "json \<Rightarrow> string \<Rightarrow> error + json option" where
  "get_property JNull name = Inl TypeError"
| "get_property (JObject props) name = Inr (map_of (foldl set_property [] props) name)"
| "get_property v name = Inr None"

text \<open>
  \<^verbatim>\<open>Object.keys\<close>: the keys that are array indices in ascending numeric order, then the other
  keys in creation order.
\<close>

definition digits_value :: "string \<Rightarrow> nat" where
  "digits_value s = foldl (\<lambda>n c. 10 * n + (of_char c - 48)) 0 s"

definition is_array_index :: "string \<Rightarrow> bool" where
  "is_array_index s =
     (s \<noteq> [] \<and> list_all (\<lambda>c. c \<in> set ''0123456789'') s
      \<and> (s = ''0'' \<or> hd s \<noteq> CHR ''0'') \<and> digits_value s \<le> 4294967294)"

definition Object_keys :: "(string \<times> json) list \<Rightarrow> string list" where
  "Object_keys props =
     (let ks = map fst props
      in sort_key digits_value (filter is_array_index ks)
         @ filter (\<lambda>k. \<not> is_array_index k) ks)"

text \<open>Lines 126 to 129: \<^verbatim>\<open>{ ...packageJson.dependencies, ...packageJson.devDependencies }\<close>.\<close>

definition allDependencies :: "json \<Rightarrow> error + (string \<times> json) list" where
  "allDependencies packageJson =
     (case get_property packageJson ''dependencies'' of
        Inl e \<Rightarrow> Inl e
      | Inr deps \<Rightarrow>
          (case get_property packageJson ''devDependencies'' of
             Inl e \<Rightarrow> Inl e
           | Inr devDeps \<Rightarrow>
               Inr (foldl set_property (foldl set_property [] (own_properties deps))
                      (own_properties devDeps))))"

subsection \<open>The console and the state of a run\<close>

datatype message =
    CopiedReadme string
  | FailedReadme string error
  | CopiedLicense string string
  | FailedLicense string string error
  | NoFilesFound string
  | NoDependenciesFound
  | Processed nat nat path
  | ErrorExtracting error

datatype console_line = Stdout message | Stderr message

record world =
  fs :: filesystem
  console :: "console_line list"

definition console_log :: "message \<Rightarrow> world \<Rightarrow> world" where
  "console_log m w = w\<lparr>console := console w @ [Stdout m]\<rparr>"

definition console_error :: "message \<Rightarrow> world \<Rightarrow> world" where
  "console_error m w = w\<lparr>console := console w @ [Stderr m]\<rparr>"

record CliOptions =
  outdir :: string
  verbose :: bool

subsection \<open>\<^verbatim>\<open>processDependency\<close> (lines 66 to 115)\<close>

text \<open>
  The body of both \<^verbatim>\<open>try\<close> blocks up to the write: read the source as text, write the text to
  the target. Either call may throw.
\<close>

definition copyText :: "filesystem \<Rightarrow> path \<Rightarrow> path \<Rightarrow> error + filesystem" where
  "copyText fs0 src dst =
     (case readFile fs0 src of
        Inl e \<Rightarrow> Inl e
      | Inr content \<Rightarrow> writeFile fs0 dst content)"

text \<open>Lines 77 to 91. The state carries \<^verbatim>\<open>filesCopiedCount\<close>.\<close>

definition copyReadme ::
  "string \<Rightarrow> path \<Rightarrow> path \<Rightarrow> bool \<Rightarrow> world \<times> nat \<Rightarrow> world \<times> nat" where
  "copyReadme packageName packageDir outputDir verb st =
     (let w = fst st; filesCopiedCount = snd st;
          readmePath = join packageDir [''README.md''];
          readmeOutputPath = join outputDir [''README.md'']
      in if fileExists (fs w) readmePath then
           (case copyText (fs w) readmePath readmeOutputPath of
              Inr fs' \<Rightarrow>
                ((if verb then console_log (CopiedReadme packageName) else id) (w\<lparr>fs := fs'\<rparr>),
                 filesCopiedCount + 1)
            | Inl e \<Rightarrow> (console_error (FailedReadme packageName e) w, filesCopiedCount))
         else (w, filesCopiedCount))"

text \<open>Lines 95 to 108: the body of the loop over the license files, and the loop.\<close>

definition copyLicense ::
  "string \<Rightarrow> path \<Rightarrow> path \<Rightarrow> bool \<Rightarrow> string \<Rightarrow> world \<times> nat \<Rightarrow> world \<times> nat" where
  "copyLicense packageName packageDir outputDir verb licenseFile st =
     (let w = fst st; filesCopiedCount = snd st;
          licensePath = join packageDir [licenseFile];
          licenseOutputPath = join outputDir [licenseFile]
      in case copyText (fs w) licensePath licenseOutputPath of
           Inr fs' \<Rightarrow>
             ((if verb then console_log (CopiedLicense licenseFile packageName) else id)
                (w\<lparr>fs := fs'\<rparr>),
              filesCopiedCount + 1)
         | Inl e \<Rightarrow>
             (console_error (FailedLicense licenseFile packageName e) w, filesCopiedCount))"

fun copyLicenses ::
  "string \<Rightarrow> path \<Rightarrow> path \<Rightarrow> bool \<Rightarrow> string list \<Rightarrow> world \<times> nat \<Rightarrow> world \<times> nat" where
  "copyLicenses packageName packageDir outputDir verb [] st = st"
| "copyLicenses packageName packageDir outputDir verb (licenseFile # rest) st =
     copyLicenses packageName packageDir outputDir verb rest
       (copyLicense packageName packageDir outputDir verb licenseFile st)"

text \<open>
  The whole function. Only \<^verbatim>\<open>mkdir\<close> is outside a \<^verbatim>\<open>try\<close>: when it throws, the function
  throws, having changed nothing. Otherwise it returns the state and \<^verbatim>\<open>filesCopiedCount\<close>.
\<close>

definition processDependency ::
  "platform \<Rightarrow> path \<Rightarrow> string \<Rightarrow> path \<Rightarrow> bool \<Rightarrow> world \<Rightarrow> error + world \<times> nat" where
  "processDependency pf projectRoot packageName outDirPath verb w =
     (let packageDir = join projectRoot [''node_modules'', packageName];
          outputDir = join outDirPath [packageName]
      in case mkdir pf (fs w) outputDir of
           Inl e \<Rightarrow> Inl e
         | Inr fs1 \<Rightarrow>
             (let st1 = copyReadme packageName packageDir outputDir verb (w\<lparr>fs := fs1\<rparr>, 0);
                  licenseFiles = getLicenseFiles pf (fs (fst st1)) packageDir;
                  st2 = copyLicenses packageName packageDir outputDir verb licenseFiles st1;
                  w2 = fst st2; filesCopiedCount = snd st2
              in Inr (if filesCopiedCount = 0 \<and> verb
                      then console_log (NoFilesFound packageName) w2 else w2,
                      filesCopiedCount)))"

subsection \<open>\<^verbatim>\<open>extractNpmReadmes\<close> (lines 121 to 152) and the top level (lines 154 to 158)\<close>

text \<open>
  The loop of lines 142 to 149 over the package names, with \<^verbatim>\<open>copiedCount\<close> and
  \<^verbatim>\<open>skippedCount\<close>. It stops at the first \<^verbatim>\<open>processDependency\<close> that throws; the state reached
  by then stays as it is.
\<close>

record counters =
  copiedCount :: nat
  skippedCount :: nat

fun packageLoop ::
  "platform \<Rightarrow> path \<Rightarrow> path \<Rightarrow> bool \<Rightarrow> string list \<Rightarrow> world \<times> counters
     \<Rightarrow> error option \<times> world \<times> counters" where
  "packageLoop pf projectRoot outDirPath verb [] st = (None, st)"
| "packageLoop pf projectRoot outDirPath verb (packageName # rest) st =
     (case processDependency pf projectRoot packageName outDirPath verb (fst st) of
        Inl e \<Rightarrow> (Some e, st)
      | Inr result \<Rightarrow>
          packageLoop pf projectRoot outDirPath verb rest
            (fst result,
             if snd result > 0
             then (snd st)\<lparr>copiedCount := copiedCount (snd st) + 1\<rparr>
             else (snd st)\<lparr>skippedCount := skippedCount (snd st) + 1\<rparr>))"

text \<open>
  Lines 122 to 129: read and parse the manifest and merge the two mappings. Any of the three
  steps may throw.
\<close>

definition readManifest ::
  "(ustring \<Rightarrow> json option) \<Rightarrow> path \<Rightarrow> filesystem \<Rightarrow> error + (string \<times> json) list" where
  "readManifest JSON_parse projectRoot fs0 =
     (let packageJsonPath = join projectRoot [''package.json'']
      in case readFile fs0 packageJsonPath of
           Inl e \<Rightarrow> Inl e
         | Inr packageJsonContent \<Rightarrow>
             (case JSON_parse packageJsonContent of
                None \<Rightarrow> Inl SyntaxError
              | Some packageJson \<Rightarrow> allDependencies packageJson))"

text \<open>
  \<^verbatim>\<open>extractNpmReadmes\<close>: the error it rejects with, if any, and the state it leaves.
\<close>

definition extractNpmReadmes ::
  "platform \<Rightarrow> (ustring \<Rightarrow> json option) \<Rightarrow> path \<Rightarrow> CliOptions \<Rightarrow> world
     \<Rightarrow> error option \<times> world" where
  "extractNpmReadmes pf JSON_parse projectRoot options w =
     (case readManifest JSON_parse projectRoot (fs w) of
        Inl e \<Rightarrow> (Some e, w)
      | Inr deps \<Rightarrow>
          if length (Object_keys deps) = 0
          then (None, if verbose options then console_log NoDependenciesFound w else w)
          else
            (let outDirPath = join projectRoot [outdir options]
             in case mkdir pf (fs w) outDirPath of
                  Inl e \<Rightarrow> (Some e, w)
                | Inr fs1 \<Rightarrow>
                    (case packageLoop pf projectRoot outDirPath (verbose options)
                            (Object_keys deps)
                            (w\<lparr>fs := fs1\<rparr>, \<lparr>copiedCount = 0, skippedCount = 0\<rparr>) of
                       (Some e, st) \<Rightarrow> (Some e, fst st)
                     | (None, st) \<Rightarrow>
                         (None,
                          console_log
                            (Processed (copiedCount (snd st)) (skippedCount (snd st))
                               outDirPath)
                            (fst st)))))"

text \<open>
  The top level: a rejection is logged and the process exits with code 1; otherwise the
  process ends with code 0.
\<close>

definition main ::
  "platform \<Rightarrow> (ustring \<Rightarrow> json option) \<Rightarrow> path \<Rightarrow> CliOptions \<Rightarrow> world \<Rightarrow> nat \<times> world" where
  "main pf JSON_parse projectRoot options w =
     (case extractNpmReadmes pf JSON_parse projectRoot options w of
        (None, w') \<Rightarrow> (0, w')
      | (Some e, w') \<Rightarrow> (1, console_error (ErrorExtracting e) w'))"

subsection \<open>Vocabulary of the statements\<close>

text \<open>
  \<open>persists a b\<close>: every directory of \<open>a\<close> is a directory of \<open>b\<close> and every regular file of \<open>a\<close>
  is a regular file of \<open>b\<close> (its content may differ). No call the program makes removes an
  entry or changes its kind.
\<close>

definition persists :: "filesystem \<Rightarrow> filesystem \<Rightarrow> bool" where
  "persists a b = (\<forall>p. (is_dir a p \<longrightarrow> is_dir b p) \<and> (is_file a p \<longrightarrow> is_file b p))"

fun is_summary :: "console_line \<Rightarrow> bool" where
  "is_summary (Stdout (Processed c s p)) = True"
| "is_summary l = False"

text \<open>
  The calls of \<^verbatim>\<open>processDependency\<close> that a loop over \<open>names\<close> started in \<open>w\<close> makes, in order:
  each name with the state in which it is called. A call that throws is the last one.
  \<open>filesCopied\<close> is what a call returns (\<open>None\<close> when it throws); \<open>mkdir_throws\<close> says that
  the \<^verbatim>\<open>mkdir\<close> of a call, the one statement of \<^verbatim>\<open>processDependency\<close> outside a \<^verbatim>\<open>try\<close>, throws.
\<close>

fun calls ::
  "platform \<Rightarrow> path \<Rightarrow> path \<Rightarrow> bool \<Rightarrow> string list \<Rightarrow> world \<Rightarrow> (string \<times> world) list" where
  "calls pf projectRoot outDirPath verb [] w = []"
| "calls pf projectRoot outDirPath verb (packageName # rest) w =
     (packageName, w) #
     (case processDependency pf projectRoot packageName outDirPath verb w of
        Inl e \<Rightarrow> []
      | Inr result \<Rightarrow> calls pf projectRoot outDirPath verb rest (fst result))"

definition filesCopied ::
  "platform \<Rightarrow> path \<Rightarrow> path \<Rightarrow> bool \<Rightarrow> string \<times> world \<Rightarrow> nat option" where
  "filesCopied pf projectRoot outDirPath verb call =
     (case processDependency pf projectRoot (fst call) outDirPath verb (snd call) of
        Inl e \<Rightarrow> None
      | Inr result \<Rightarrow> Some (snd result))"

definition mkdir_throws :: "platform \<Rightarrow> path \<Rightarrow> string \<times> world \<Rightarrow> bool" where
  "mkdir_throws pf outDirPath call =
     (case mkdir pf (fs (snd call)) (join outDirPath [fst call]) of
        Inl e \<Rightarrow> True
      | Inr fs1 \<Rightarrow> False)"

text \<open>A file name: not empty, not \<^verbatim>\<open>.\<close> or \<^verbatim>\<open>..\<close>, and without \<^verbatim>\<open>/\<close>.\<close>

definition file_name :: "string \<Rightarrow> bool" where
  "file_name s = (s \<noteq> [] \<and> s \<noteq> ''.'' \<and> s \<noteq> ''..'' \<and> CHR ''/'' \<notin> set s)"

text \<open>
  Two runs in sequence. \<open>A\<close> is the file system the first run starts from and \<open>F\<close> the one it
  leaves, from which the second run starts. \<open>in_step A F t u\<close> relates a state \<open>t\<close> of the first
  run to the state \<open>u\<close> of the second run at the same point: every path holds in \<open>u\<close> what it
  holds in \<open>t\<close>, or the first run has not touched it yet and the second run still finds what
  the first run left there in the end.
\<close>

definition in_step :: "filesystem \<Rightarrow> filesystem \<Rightarrow> filesystem \<Rightarrow> filesystem \<Rightarrow> bool" where
  "in_step A F t u =
     (\<forall>p. lookup u p = lookup t p \<or> (lookup t p = lookup A p \<and> lookup u p = lookup F p))"

text \<open>
  \<open>same_package_dir a b d\<close>: the directory \<open>d\<close>, its listing and each of its entries are the
  same in \<open>a\<close> and in \<open>b\<close>. \<open>plain_entries a d\<close>: the entries of \<open>d\<close> have file names.
\<close>

definition same_package_dir :: "filesystem \<Rightarrow> filesystem \<Rightarrow> path \<Rightarrow> bool" where
  "same_package_dir a b d =
     (lookup a d = lookup b d \<and> readdir a d = readdir b d
      \<and> list_all (\<lambda>c. lookup a (d @ [c]) = lookup b (d @ [c])) (readdir a d))"

definition plain_entries :: "filesystem \<Rightarrow> path \<Rightarrow> bool" where
  "plain_entries a d = list_all file_name (readdir a d)"

text \<open>
  \<open>same_inputs JSON_parse projectRoot a b\<close>: the manifest and the package directory of every
  name of the merged set are the same in \<open>a\<close> and in \<open>b\<close>.
\<close>

definition same_inputs ::
  "(ustring \<Rightarrow> json option) \<Rightarrow> path \<Rightarrow> filesystem \<Rightarrow> filesystem \<Rightarrow> bool" where
  "same_inputs JSON_parse projectRoot a b =
     (lookup a (join projectRoot [''package.json'']) = lookup b (join projectRoot [''package.json''])
      \<and> (case readManifest JSON_parse projectRoot a of
            Inl e \<Rightarrow> True
          | Inr deps \<Rightarrow>
              list_all (\<lambda>n. same_package_dir a b (join projectRoot [''node_modules'', n])
                           \<and> plain_entries a (join projectRoot [''node_modules'', n]))
                (Object_keys deps)))"


subsection \<open>Example states\<close>

text \<open>
  A project \<^verbatim>\<open>/proj\<close> whose one dependency \<^verbatim>\<open>left-pad\<close> ships \<^verbatim>\<open>README.md\<close>, \<^verbatim>\<open>LICENSE\<close> and
  \<^verbatim>\<open>license.md\<close>, and the manifest \<^verbatim>\<open>{"dependencies": {"left-pad": "^1.0.0"}}\<close> as parsed.
\<close>

definition fs_leftpad :: filesystem where
  "fs_leftpad =
     [([''proj''], Dir),
      ([''proj'', ''package.json''], File [123, 125]),
      ([''proj'', ''node_modules''], Dir),
      ([''proj'', ''node_modules'', ''left-pad''], Dir),
      ([''proj'', ''node_modules'', ''left-pad'', ''README.md''], File [104, 105]),
      ([''proj'', ''node_modules'', ''left-pad'', ''LICENSE''], File [77, 73, 84]),
      ([''proj'', ''node_modules'', ''left-pad'', ''license.md''], File [109, 105, 116])]"

definition manifest_leftpad :: json where
  "manifest_leftpad = JObject [(''dependencies'', JObject [(''left-pad'', JString ''^1.0.0'')])]"

text \<open>
  A project whose manifest is \<^verbatim>\<open>{"devDependencies": {"foo": "1.0.0"}}\<close> and that has no
  \<^verbatim>\<open>node_modules\<close>.
\<close>

definition fs_bare :: filesystem where
  "fs_bare = [([''proj''], Dir), ([''proj'', ''package.json''], File [123, 125])]"

definition manifest_foo :: json where
  "manifest_foo = JObject [(''devDependencies'', JObject [(''foo'', JString ''1.0.0'')])]"

text \<open>The same project with a regular file where the output subdirectory of \<^verbatim>\<open>foo\<close> should go.\<close>

definition fs_blocked :: filesystem where
  "fs_blocked =
     [([''proj''], Dir),
      ([''proj'', ''package.json''], File [123, 125]),
      ([''proj'', ''docs-deps''], Dir),
      ([''proj'', ''docs-deps'', ''foo''], File [])]"

text \<open>
  A package \<^verbatim>\<open>foo\<close> whose \<^verbatim>\<open>README.md\<close> is a directory, with a regular file \<^verbatim>\<open>license\<close> and a
  directory \<^verbatim>\<open>licenses\<close>.
\<close>

definition fs_odd :: filesystem where
  "fs_odd =
     [([''proj''], Dir),
      ([''proj'', ''package.json''], File [123, 125]),
      ([''proj'', ''node_modules''], Dir),
      ([''proj'', ''node_modules'', ''foo''], Dir),
      ([''proj'', ''node_modules'', ''foo'', ''README.md''], Dir),
      ([''proj'', ''node_modules'', ''foo'', ''licenses''], Dir),
      ([''proj'', ''node_modules'', ''foo'', ''license''], File [77])]"

text \<open>
  A package \<^verbatim>\<open>foo\<close> whose \<^verbatim>\<open>README.md\<close> is the single byte \<^verbatim>\<open>0xFF\<close> (the letter y with diaeresis
  in Latin-1, no UTF-8), with the output subdirectory in place.
\<close>

definition fs_latin1 :: filesystem where
  "fs_latin1 =
     [([''proj''], Dir),
      ([''proj'', ''node_modules''], Dir),
      ([''proj'', ''node_modules'', ''foo''], Dir),
      ([''proj'', ''node_modules'', ''foo'', ''README.md''], File [0xFF]),
      ([''proj'', ''docs-deps''], Dir),
      ([''proj'', ''docs-deps'', ''foo''], Dir)]"

text \<open>
  A project whose manifest is \<^verbatim>\<open>{"dependencies": {"../o1/o2/x": "1", "x": "1"}}\<close>; the package
  \<^verbatim>\<open>x\<close> ships a \<^verbatim>\<open>README.md\<close>. The options name the output directory \<^verbatim>\<open>o1/o2\<close>.
\<close>

definition fs_climb :: filesystem where
  "fs_climb =
     [([''proj''], Dir),
      ([''proj'', ''package.json''], File [123, 125]),
      ([''proj'', ''node_modules''], Dir),
      ([''proj'', ''node_modules'', ''x''], Dir),
      ([''proj'', ''node_modules'', ''x'', ''README.md''], File [104, 105])]"

definition manifest_climb :: json where
  "manifest_climb =
     JObject [(''dependencies'', JObject [(''../o1/o2/x'', JString ''1''), (''x'', JString ''1'')])]"

definition nested :: CliOptions where
  "nested = \<lparr>outdir = ''o1/o2'', verbose = False\<rparr>"

text \<open>
  A project whose manifest is
  \<^verbatim>\<open>{"dependencies": {"a": "1", "b": "1"}, "devDependencies": {"b": "2", "c": "1"}}\<close>. The package
  \<^verbatim>\<open>a\<close> ships a \<^verbatim>\<open>README.md\<close>; the output directory is there already and holds a regular file
  named \<^verbatim>\<open>b\<close>.
\<close>

definition manifest_abc :: json where
  "manifest_abc =
     JObject [(''dependencies'', JObject [(''a'', JString ''1''), (''b'', JString ''1'')]),
              (''devDependencies'', JObject [(''b'', JString ''2''), (''c'', JString ''1'')])]"

definition fs_abc :: filesystem where
  "fs_abc =
     [([''proj''], Dir),
      ([''proj'', ''package.json''], File [123, 125]),
      ([''proj'', ''node_modules''], Dir),
      ([''proj'', ''node_modules'', ''a''], Dir),
      ([''proj'', ''node_modules'', ''a'', ''README.md''], File [104, 105]),
      ([''proj'', ''docs-deps''], Dir),
      ([''proj'', ''docs-deps'', ''b''], File [])]"

text \<open>
  The manifest \<^verbatim>\<open>{"dependencies": {"left-pad": "^1.0.0"}, "devDependencies": {"foo": "1.0.0"}}\<close>:
  in the project of \<open>fs_leftpad\<close>, \<^verbatim>\<open>left-pad\<close> is installed and \<^verbatim>\<open>foo\<close> is not.
\<close>

definition manifest_mixed :: json where
  "manifest_mixed =
     JObject [(''dependencies'', JObject [(''left-pad'', JString ''^1.0.0'')]),
              (''devDependencies'', JObject [(''foo'', JString ''1.0.0'')])]"

text \<open>A manifest whose one dependency has a NUL character in its name.\<close>

definition manifest_nul :: json where
  "manifest_nul =
     JObject [(''dependencies'', JObject [([CHR ''a'', CHR 0x00, CHR ''b''], JString ''1'')])]"

definition linux :: platform where
  "linux = \<lparr>nocase = False, readdir_throws = False, mkdir_denied = (\<lambda>p. False)\<rparr>"

definition macos :: platform where
  "macos = \<lparr>nocase = True, readdir_throws = False, mkdir_denied = (\<lambda>p. False)\<rparr>"

text \<open>A platform on which the process may not create any directory.\<close>

definition readonly :: platform where
  "readonly = \<lparr>nocase = False, readdir_throws = False, mkdir_denied = (\<lambda>p. True)\<rparr>"

definition defaults :: CliOptions where
  "defaults = \<lparr>outdir = ''./docs-deps'', verbose = False\<rparr>"


section \<open>Properties\<close>

subsection \<open>Decoding inverts encoding on Unicode scalar values\<close>

lemma dec2:
  assumes "0xC2 \<le> b0" "b0 \<le> 0xDF" "0x80 \<le> b1" "b1 \<le> 0xBF"
  shows "utf8_run utf8_init (b0 # b1 # r) = ((b0 - 0xC0) * 64 + (b1 - 0x80)) # utf8_run utf8_init r"
  using assms by (simp add: utf8_init_def utf8_lead_def)

lemma dec3:
  assumes "0xE0 \<le> b0" "b0 \<le> 0xEF"
    and "(if b0 = 0xE0 then 0xA0 else 0x80) \<le> b1" "b1 \<le> (if b0 = 0xED then 0x9F else 0xBF)"
    and "0x80 \<le> b2" "b2 \<le> 0xBF"
  shows "utf8_run utf8_init (b0 # b1 # b2 # r) =
     (((b0 - 0xE0) * 64 + (b1 - 0x80)) * 64 + (b2 - 0x80)) # utf8_run utf8_init r"
  using assms by (simp add: utf8_init_def utf8_lead_def split: if_splits)

lemma dec4:
  assumes "0xF0 \<le> b0" "b0 \<le> 0xF4"
    and "(if b0 = 0xF0 then 0x90 else 0x80) \<le> b1" "b1 \<le> (if b0 = 0xF4 then 0x8F else 0xBF)"
    and "0x80 \<le> b2" "b2 \<le> 0xBF" "0x80 \<le> b3" "b3 \<le> 0xBF"
  shows "utf8_run utf8_init (b0 # b1 # b2 # b3 # r) =
     ((((b0 - 0xF0) * 64 + (b1 - 0x80)) * 64 + (b2 - 0x80)) * 64 + (b3 - 0x80))
       # utf8_run utf8_init r"
  using assms by (simp add: utf8_init_def utf8_lead_def split: if_splits)




lemma split3:
  fixes cp :: nat
  obtains q r1 r0 where "cp div 4096 = q" "cp div 64 mod 64 = r1" "cp mod 64 = r0"
    "r1 < 64" "r0 < 64" "cp = q * 4096 + r1 * 64 + r0"
proof -
  have d: "cp div 4096 = cp div 64 div 64" by (simp add: div_mult2_eq)
  have e1: "cp = cp div 64 * 64 + cp mod 64" by simp
  have e2: "cp div 64 = cp div 64 div 64 * 64 + cp div 64 mod 64" by simp
  have "cp = cp div 4096 * 4096 + cp div 64 mod 64 * 64 + cp mod 64"
    unfolding d using e1 e2 by linarith
  then show ?thesis using that [of "cp div 4096" "cp div 64 mod 64" "cp mod 64"] by simp
qed

lemma split4:
  fixes cp :: nat
  obtains q r2 r1 r0 where "cp div 262144 = q" "cp div 4096 mod 64 = r2"
    "cp div 64 mod 64 = r1" "cp mod 64 = r0"
    "r2 < 64" "r1 < 64" "r0 < 64" "cp = q * 262144 + r2 * 4096 + r1 * 64 + r0"
proof -
  have d1: "cp div 4096 = cp div 64 div 64" by (simp add: div_mult2_eq)
  have d2: "cp div 262144 = cp div 64 div 64 div 64" by (simp add: div_mult2_eq)
  have e1: "cp = cp div 64 * 64 + cp mod 64" by simp
  have e2: "cp div 64 = cp div 64 div 64 * 64 + cp div 64 mod 64" by simp
  have e3: "cp div 64 div 64 = cp div 64 div 64 div 64 * 64 + cp div 64 div 64 mod 64" by simp
  have "cp = cp div 262144 * 262144 + cp div 4096 mod 64 * 4096 + cp div 64 mod 64 * 64 + cp mod 64"
    unfolding d1 d2 using e1 e2 e3 by linarith
  then show ?thesis
    using that [of "cp div 262144" "cp div 4096 mod 64" "cp div 64 mod 64" "cp mod 64"] by simp
qed


lemma run1:
  assumes "cp < 0x80"
  shows "utf8_run utf8_init (utf8_encode_cp cp @ r) = cp # utf8_run utf8_init r"
  using assms by (simp add: utf8_encode_cp_def utf8_init_def utf8_lead_def)

lemma run2:
  assumes "0x80 \<le> cp" "cp < 0x800"
  shows "utf8_run utf8_init (utf8_encode_cp cp @ r) = cp # utf8_run utf8_init r"
proof -
  define q r0 where "q = cp div 64" and "r0 = cp mod 64"
  have c: "cp = q * 64 + r0" and r0: "r0 < 64" by (simp_all add: q_def r0_def)
  have enc: "utf8_encode_cp cp = [0xC0 + q, 0x80 + r0]"
    using assms by (simp add: utf8_encode_cp_def q_def r0_def)
  have b: "0xC2 \<le> 0xC0 + q" "0xC0 + q \<le> 0xDF" "0x80 \<le> 0x80 + r0" "0x80 + r0 \<le> 0xBF"
    using assms c r0 by linarith+
  show ?thesis unfolding enc using dec2 [OF b, of r] c by simp
qed

lemma run3:
  assumes "0x800 \<le> cp" "cp < 0x10000" "\<not> (0xD800 \<le> cp \<and> cp \<le> 0xDFFF)"
  shows "utf8_run utf8_init (utf8_encode_cp cp @ r) = cp # utf8_run utf8_init r"
proof -
  obtain q r1 r0 where q: "cp div 4096 = q" and r1: "cp div 64 mod 64 = r1"
    and r0: "cp mod 64 = r0" and lt: "r1 < 64" "r0 < 64"
    and c: "cp = q * 4096 + r1 * 64 + r0"
    by (rule split3)
  have ns: "\<not> cp < 0x80" "\<not> cp < 0x800" using assms by linarith+
  have enc: "utf8_encode_cp cp = [0xE0 + q, 0x80 + r1, 0x80 + r0]"
    unfolding utf8_encode_cp_def using ns assms(2,3) by (simp only: if_False if_True q r1 r0)
  have b0: "0xE0 \<le> 0xE0 + q" "0xE0 + q \<le> 0xEF" using assms c lt by linarith+
  have lo: "q = 0 \<Longrightarrow> 32 \<le> r1" using assms c lt by linarith
  have hi: "q = 13 \<Longrightarrow> r1 < 32" using assms c lt by linarith
  have b1: "(if 0xE0 + q = 0xE0 then 0xA0 else 0x80) \<le> 0x80 + r1"
    using lo by simp
  have b1': "0x80 + r1 \<le> (if 0xE0 + q = 0xED then 0x9F else 0xBF)"
    using hi lt by (cases "q = 13") simp_all
  have b2: "0x80 \<le> 0x80 + r0" "0x80 + r0 \<le> 0xBF" using lt by linarith+
  show ?thesis unfolding enc using dec3 [OF b0 b1 b1' b2, of r] c by simp
qed

lemma run4:
  assumes "0x10000 \<le> cp" "cp < 0x110000"
  shows "utf8_run utf8_init (utf8_encode_cp cp @ r) = cp # utf8_run utf8_init r"
proof -
  obtain q r2 r1 r0 where q: "cp div 262144 = q" and r2: "cp div 4096 mod 64 = r2"
    and r1: "cp div 64 mod 64 = r1" and r0: "cp mod 64 = r0"
    and lt: "r2 < 64" "r1 < 64" "r0 < 64"
    and c: "cp = q * 262144 + r2 * 4096 + r1 * 64 + r0"
    by (rule split4)
  have enc: "utf8_encode_cp cp = [0xF0 + q, 0x80 + r2, 0x80 + r1, 0x80 + r0]"
    using assms by (simp add: utf8_encode_cp_def q r2 r1 r0)
  have b0: "0xF0 \<le> 0xF0 + q" "0xF0 + q \<le> 0xF4" using assms c lt by linarith+
  have lo: "q = 0 \<Longrightarrow> 16 \<le> r2" using assms c lt by linarith
  have hi: "q = 4 \<Longrightarrow> r2 < 16" using assms c lt by linarith
  have b1: "(if 0xF0 + q = 0xF0 then 0x90 else 0x80) \<le> 0x80 + r2"
    using lo by simp
  have b1': "0x80 + r2 \<le> (if 0xF0 + q = 0xF4 then 0x8F else 0xBF)"
    using hi lt by (cases "q = 4") simp_all
  have b2: "0x80 \<le> 0x80 + r1" "0x80 + r1 \<le> 0xBF" using lt by linarith+
  have b3: "0x80 \<le> 0x80 + r0" "0x80 + r0 \<le> 0xBF" using lt by linarith+
  show ?thesis unfolding enc using dec4 [OF b0 b1 b1' b2 b3, of r] c by simp
qed

lemma decode_encode_cp:
  assumes "scalar_value cp"
  shows "utf8_run utf8_init (utf8_encode_cp cp @ r) = cp # utf8_run utf8_init r"
proof -
  consider "cp < 0x80" | "0x80 \<le> cp" "cp < 0x800" | "0x800 \<le> cp" "cp < 0x10000"
    | "0x10000 \<le> cp" by linarith
  then show ?thesis
    using assms by cases (simp_all add: run1 run2 run3 run4 scalar_value_def)
qed

lemma utf8_decode_encode:
  assumes "list_all scalar_value t"
  shows "utf8_decode (utf8_encode t) = t"
  using assms unfolding utf8_decode_def utf8_encode_def
proof (induction t)
  case Nil
  show ?case by (simp add: utf8_init_def)
next
  case (Cons cp t)
  then show ?case by (simp add: decode_encode_cp)
qed

subsection \<open>Facts about the file-system calls\<close>

lemma lookup_Nil [simp]: "lookup fs0 [] = Some Dir"
  by (simp add: lookup_def)

lemma lookup_update:
  "p \<noteq> [] \<Longrightarrow> lookup (AList.update p n fs0) q = (if q = p then Some n else lookup fs0 q)"
  by (simp add: lookup_def update_conv')

lemma is_dir_Nil [simp]: "is_dir fs0 []"
  by (simp add: is_dir_def)

lemma is_file_iff: "is_file fs0 p \<longleftrightarrow> (\<exists>b. lookup fs0 p = Some (File b))"
  by (auto simp: is_file_def split: option.splits node.splits)

lemma not_file_and_dir: "is_file fs0 p \<Longrightarrow> \<not> is_dir fs0 p"
  by (auto simp: is_file_iff is_dir_def)

lemma writeFile_Inr:
  assumes "writeFile fs0 p c = Inr fs'"
  shows "p \<noteq> []" "\<not> is_dir fs0 p" "is_dir fs0 (butlast p)"
    and "lookup fs' q = (if q = p then Some (File (utf8_encode c)) else lookup fs0 q)"
proof -
  show ne: "p \<noteq> []" using assms by (auto simp: writeFile_def split: if_splits)
  show "\<not> is_dir fs0 p" "is_dir fs0 (butlast p)"
    using assms by (auto simp: writeFile_def split: if_splits)
  have "fs' = AList.update p (File (utf8_encode c)) fs0"
    using assms by (auto simp: writeFile_def split: if_splits)
  then show "lookup fs' q = (if q = p then Some (File (utf8_encode c)) else lookup fs0 q)"
    using ne by (simp add: lookup_update)
qed

lemma writeFile_Inr_iff:
  "(\<exists>fs'. writeFile fs0 p c = Inr fs') \<longleftrightarrow> \<not> is_dir fs0 p \<and> is_dir fs0 (butlast p)"
  by (auto simp: writeFile_def dest: not_file_and_dir)

lemma lookup_mkdir_one:
  "lookup (mkdir_one fs0 p) q = (if q = p \<and> lookup fs0 p = None then Some Dir else lookup fs0 q)"
proof (cases "lookup fs0 p = None")
  case True
  then have "p \<noteq> []" by auto
  with True show ?thesis by (simp add: mkdir_one_def lookup_update)
next
  case False
  then show ?thesis by (auto simp: mkdir_one_def)
qed

lemma lookup_foldl_mkdir_one:
  "lookup (foldl mkdir_one fs0 qs) q =
     (if q \<in> set qs \<and> lookup fs0 q = None then Some Dir else lookup fs0 q)"
proof (induction qs arbitrary: fs0)
  case Nil
  show ?case by simp
next
  case (Cons a qs)
  show ?case by (auto simp: Cons.IH lookup_mkdir_one)
qed

lemma mkdir_Inl_iff:
  "(\<exists>e. mkdir pf fs0 p = Inl e) \<longleftrightarrow>
     (\<exists>s\<in>set p. CHR 0x00 \<in> set s \<or> 255 < length s)
     \<or> (\<exists>q. prefix q p \<and> is_file fs0 q)
     \<or> (\<exists>q. prefix q p \<and> lookup fs0 q = None \<and> mkdir_denied pf q)"
  by (auto simp: mkdir_def list_ex_iff)

lemma mkdir_same:
  assumes "\<And>q. lookup a q = lookup b q"
  shows "(\<exists>e. mkdir pf a p = Inl e) \<longleftrightarrow> (\<exists>e. mkdir pf b p = Inl e)"
  unfolding mkdir_Inl_iff by (simp add: assms is_file_def)

lemma mkdir_Inr:
  assumes "mkdir pf fs0 p = Inr fs'"
  shows "\<And>q. prefix q p \<Longrightarrow> \<not> is_file fs0 q"
    and "\<And>q. prefix q p \<Longrightarrow> lookup fs0 q = None \<Longrightarrow> \<not> mkdir_denied pf q"
    and "lookup fs' q = (if prefix q p \<and> lookup fs0 q = None then Some Dir else lookup fs0 q)"
proof -
  have n: "\<not> (\<exists>e. mkdir pf fs0 p = Inl e)" using assms by simp
  show "\<And>q. prefix q p \<Longrightarrow> \<not> is_file fs0 q"
    using n unfolding mkdir_Inl_iff by blast
  show "\<And>q. prefix q p \<Longrightarrow> lookup fs0 q = None \<Longrightarrow> \<not> mkdir_denied pf q"
    using n unfolding mkdir_Inl_iff by blast
  have "fs' = foldl mkdir_one fs0 (prefixes p)"
    using assms by (auto simp: mkdir_def split: if_splits)
  then show "lookup fs' q = (if prefix q p \<and> lookup fs0 q = None then Some Dir else lookup fs0 q)"
    by (simp add: lookup_foldl_mkdir_one)
qed

lemma mkdir_Inr_is_dir:
  assumes "mkdir pf fs0 p = Inr fs'" "prefix q p"
  shows "is_dir fs' q"
proof -
  have nf: "\<not> is_file fs0 q" using assms by (rule mkdir_Inr(1))
  show ?thesis
  proof (cases "lookup fs0 q")
    case None
    then show ?thesis using assms by (simp add: is_dir_def mkdir_Inr(3))
  next
    case (Some n)
    then show ?thesis using nf assms
      by (cases n) (auto simp: is_dir_def mkdir_Inr(3) is_file_iff)
  qed
qed

subsection \<open>The merged set of package names\<close>


lemma distinct_foldl_set_property:
  "distinct (map fst acc) \<Longrightarrow> distinct (map fst (foldl set_property acc kvs))"
  by (induction kvs arbitrary: acc) (simp_all add: set_property_def distinct_update)


lemma distinct_Object_keys:
  "distinct (map fst props) \<Longrightarrow> distinct (Object_keys props)"
  by (auto simp: Object_keys_def Let_def)


subsection \<open>The empty manifest\<close>

text \<open>
  Claim C5. When the merged set of names is empty, the process ends with exit code 0, the file
  system is left as it was (no output directory is created, no package is processed), and
  the console receives exactly one informational line when \<^verbatim>\<open>verbose\<close> is set and nothing
  otherwise.
\<close>

theorem empty_union_is_no_op:
  assumes "readManifest JSON_parse projectRoot (fs w) = Inr deps"
    and "Object_keys deps = []"
  shows "fst (main pf JSON_parse projectRoot options w) = 0
       \<and> fs (snd (main pf JSON_parse projectRoot options w)) = fs w
       \<and> console (snd (main pf JSON_parse projectRoot options w)) =
           console w @ (if verbose options then [Stdout NoDependenciesFound] else [])"
  using assms by (simp add: main_def extractNpmReadmes_def console_log_def)

theorem empty_union_is_no_op_witness:
  "main linux (\<lambda>s. Some (JObject [])) [''proj'']
      \<lparr>outdir = ''./docs-deps'', verbose = True\<rparr>
      \<lparr>fs = [([''proj''], Dir), ([''proj'', ''package.json''], File [123, 125])], console = []\<rparr>
   = (0, \<lparr>fs = [([''proj''], Dir), ([''proj'', ''package.json''], File [123, 125])],
          console = [Stdout NoDependenciesFound]\<rparr>)"
proof -
  let ?w = "\<lparr>fs = [([''proj''], Dir), ([''proj'', ''package.json''], File [123, 125])],
             console = []\<rparr>"
  have m: "readManifest (\<lambda>s. Some (JObject [])) [''proj''] (fs ?w) = Inr []"
    by (simp add: readManifest_def join_def readFile_def lookup_def allDependencies_def)
  have k: "Object_keys [] = []" by (simp add: Object_keys_def)
  show ?thesis
    using empty_union_is_no_op [OF m k, of linux
        "\<lparr>outdir = ''./docs-deps'', verbose = True\<rparr>"]
    by (cases "main linux (\<lambda>s. Some (JObject [])) [''proj'']
      \<lparr>outdir = ''./docs-deps'', verbose = True\<rparr> ?w") (auto simp: world.equality)
qed

subsection \<open>Nothing is removed and no entry changes its kind\<close>

lemma persists_refl [simp]: "persists a a"
  by (simp add: persists_def)

lemma persists_trans: "persists a b \<Longrightarrow> persists b c \<Longrightarrow> persists a c"
  by (simp add: persists_def)

lemma persists_dir: "persists a b \<Longrightarrow> is_dir a p \<Longrightarrow> is_dir b p"
  by (simp add: persists_def)

lemma persists_file: "persists a b \<Longrightarrow> is_file a p \<Longrightarrow> is_file b p"
  by (simp add: persists_def)

lemma writeFile_persists:
  assumes "writeFile a p c = Inr b"
  shows "persists a b"
  unfolding persists_def
proof (intro allI conjI impI)
  fix q
  assume "is_dir a q"
  then show "is_dir b q"
    using writeFile_Inr(2)[OF assms] by (auto simp: is_dir_def writeFile_Inr(4)[OF assms])
next
  fix q
  assume "is_file a q"
  then show "is_file b q"
    by (auto simp: is_file_iff writeFile_Inr(4)[OF assms])
qed

lemma mkdir_persists:
  assumes "mkdir pf a p = Inr b"
  shows "persists a b"
  unfolding persists_def
  by (auto simp: is_dir_def is_file_iff mkdir_Inr(3)[OF assms])

lemma copyText_persists: "copyText a src dst = Inr b \<Longrightarrow> persists a b"
  by (auto simp: copyText_def split: sum.splits dest: writeFile_persists)

lemma copyReadme_persists:
  "persists (fs (fst st)) (fs (fst (copyReadme packageName packageDir outputDir verb st)))"
  by (auto simp: copyReadme_def Let_def console_log_def console_error_def
      split: sum.splits dest: copyText_persists)

lemma copyLicense_persists:
  "persists (fs (fst st)) (fs (fst (copyLicense packageName packageDir outputDir verb lf st)))"
  by (auto simp: copyLicense_def Let_def console_log_def console_error_def
      split: sum.splits dest: copyText_persists)

lemma copyLicenses_persists:
  "persists (fs (fst st)) (fs (fst (copyLicenses packageName packageDir outputDir verb lfs st)))"
proof (induction lfs arbitrary: st)
  case Nil
  show ?case by simp
next
  case (Cons lf lfs)
  show ?case
    using persists_trans [OF copyLicense_persists Cons.IH] by simp
qed

text \<open>What \<^verbatim>\<open>processDependency\<close> returns, step by step.\<close>

lemma processDependency_Inl:
  "processDependency pf projectRoot packageName outDirPath verb w = Inl e
     \<longleftrightarrow> mkdir pf (fs w) (join outDirPath [packageName]) = Inl e"
  by (auto simp: processDependency_def Let_def split: sum.splits)

lemma processDependency_Inr:
  assumes "processDependency pf projectRoot packageName outDirPath verb w = Inr r"
  obtains fs1 where "mkdir pf (fs w) (join outDirPath [packageName]) = Inr fs1"
    and "persists fs1 (fs (fst r))"
proof -
  let ?pd = "join projectRoot [''node_modules'', packageName]"
  let ?od = "join outDirPath [packageName]"
  obtain fs1 where m: "mkdir pf (fs w) ?od = Inr fs1"
    using assms by (auto simp: processDependency_def Let_def split: sum.splits)
  define st1 where "st1 = copyReadme packageName ?pd ?od verb (w\<lparr>fs := fs1\<rparr>, 0)"
  define st2 where
    "st2 = copyLicenses packageName ?pd ?od verb (getLicenseFiles pf (fs (fst st1)) ?pd) st1"
  have r: "fs (fst r) = fs (fst st2)"
    using assms m by (auto simp: processDependency_def Let_def st1_def st2_def console_log_def)
  have "persists fs1 (fs (fst st1))"
    using copyReadme_persists [of "(w\<lparr>fs := fs1\<rparr>, 0)"] by (simp add: st1_def)
  moreover have "persists (fs (fst st1)) (fs (fst st2))"
    unfolding st2_def by (rule copyLicenses_persists)
  ultimately have "persists fs1 (fs (fst r))"
    unfolding r by (rule persists_trans)
  with m show ?thesis by (rule that)
qed

lemma processDependency_persists:
  assumes "processDependency pf projectRoot packageName outDirPath verb w = Inr r"
  shows "persists (fs w) (fs (fst r))"
  using assms by (elim processDependency_Inr) (blast intro: persists_trans mkdir_persists)

lemma packageLoop_persists:
  "persists (fs (fst st)) (fs (fst (snd (packageLoop pf projectRoot outDirPath verb names st))))"
proof (induction names arbitrary: st)
  case Nil
  show ?case by simp
next
  case (Cons n names)
  show ?case
  proof (cases "processDependency pf projectRoot n outDirPath verb (fst st)")
    case (Inl e)
    then show ?thesis by simp
  next
    case (Inr r)
    from processDependency_persists [OF Inr] show ?thesis
      using Inr by (auto intro: persists_trans [OF _ Cons.IH])
  qed
qed

subsection \<open>The package loop\<close>

lemma mkdir_Inr_persists_dir:
  assumes "mkdir pf fs0 p = Inr fs1" "persists fs1 fs2"
  shows "is_dir fs2 p"
  using mkdir_Inr_is_dir [OF assms(1), of p] assms(2) by (auto dest: persists_dir)

text \<open>When the loop completes, every name has its output subdirectory.\<close>

lemma packageLoop_None:
  assumes "packageLoop pf projectRoot outDirPath verb names st = (None, st')"
    and "n \<in> set names"
  shows "is_dir (fs (fst st')) (join outDirPath [n])"
  using assms
proof (induction names arbitrary: st)
  case Nil
  then show ?case by simp
next
  case (Cons a names)
  obtain r where r: "processDependency pf projectRoot a outDirPath verb (fst st) = Inr r"
    using Cons.prems(1) by (cases "processDependency pf projectRoot a outDirPath verb (fst st)") auto
  let ?st1 = "(fst r, if snd r > 0
             then (snd st)\<lparr>copiedCount := copiedCount (snd st) + 1\<rparr>
             else (snd st)\<lparr>skippedCount := skippedCount (snd st) + 1\<rparr>)"
  have rest: "packageLoop pf projectRoot outDirPath verb names ?st1 = (None, st')"
    using Cons.prems(1) r by simp
  show ?case
  proof (cases "n = a")
    case True
    obtain fs1 where m: "mkdir pf (fs (fst st)) (join outDirPath [a]) = Inr fs1"
      and p: "persists fs1 (fs (fst r))"
      using r by (rule processDependency_Inr)
    have "persists (fs (fst r)) (fs (fst st'))"
      using packageLoop_persists [of "?st1" pf projectRoot outDirPath verb names] rest by simp
    with p have "persists fs1 (fs (fst st'))" by (rule persists_trans)
    with m show ?thesis unfolding True by (rule mkdir_Inr_persists_dir)
  next
    case False
    then have "n \<in> set names" using Cons.prems(2) by simp
    with Cons.IH [OF rest] show ?thesis by simp
  qed
qed


text \<open>
  The loop makes the calls listed by \<open>calls\<close> and no others: it throws exactly when one of them
  throws, which is when its \<^verbatim>\<open>mkdir\<close> throws, and its counters count the calls that returned,
  by what they returned.
\<close>

lemma filesCopied_None:
  "filesCopied pf projectRoot outDirPath verb call = None \<longleftrightarrow> mkdir_throws pf outDirPath call"
proof (cases "processDependency pf projectRoot (fst call) outDirPath verb (snd call)")
  case (Inl e)
  hence "mkdir pf (fs (snd call)) (join outDirPath [fst call]) = Inl e"
    by (simp add: processDependency_Inl)
  thus ?thesis using Inl by (simp add: filesCopied_def mkdir_throws_def)
next
  case (Inr r)
  then obtain fs1 where "mkdir pf (fs (snd call)) (join outDirPath [fst call]) = Inr fs1"
    by (rule processDependency_Inr)
  thus ?thesis using Inr by (simp add: filesCopied_def mkdir_throws_def)
qed

lemma calls_prefix:
  "prefix (map fst (calls pf projectRoot outDirPath verb names w)) names"
proof (induction names arbitrary: w)
  case Nil
  show ?case by simp
next
  case (Cons n rest)
  show ?case
  proof (cases "processDependency pf projectRoot n outDirPath verb w")
    case (Inl e)
    thus ?thesis by simp
  next
    case (Inr r)
    thus ?thesis using Cons.IH [of "fst r"] by simp
  qed
qed

lemma calls_complete:
  "list_all (\<lambda>x. filesCopied pf projectRoot outDirPath verb x \<noteq> None)
       (calls pf projectRoot outDirPath verb names w)
     \<Longrightarrow> map fst (calls pf projectRoot outDirPath verb names w) = names"
proof (induction names arbitrary: w)
  case Nil
  show ?case by simp
next
  case (Cons n rest)
  show ?case
  proof (cases "processDependency pf projectRoot n outDirPath verb w")
    case (Inl e)
    thus ?thesis using Cons.prems by (simp add: filesCopied_def)
  next
    case (Inr r)
    thus ?thesis using Cons.IH [of "fst r"] Cons.prems by simp
  qed
qed

lemma packageLoop_throws:
  "fst (packageLoop pf projectRoot outDirPath verb names st) = None \<longleftrightarrow>
     list_all (\<lambda>x. filesCopied pf projectRoot outDirPath verb x \<noteq> None)
       (calls pf projectRoot outDirPath verb names (fst st))"
proof (induction names arbitrary: st)
  case Nil
  show ?case by simp
next
  case (Cons n rest)
  show ?case
  proof (cases "processDependency pf projectRoot n outDirPath verb (fst st)")
    case (Inl e)
    thus ?thesis by (simp add: filesCopied_def)
  next
    case (Inr r)
    define st1 where
      "st1 = (fst r, if snd r > 0 then (snd st)\<lparr>copiedCount := copiedCount (snd st) + 1\<rparr>
                     else (snd st)\<lparr>skippedCount := skippedCount (snd st) + 1\<rparr>)"
    have "fst st1 = fst r" by (simp add: st1_def)
    thus ?thesis using Cons.IH [of st1] Inr by (simp add: filesCopied_def st1_def [symmetric])
  qed
qed

lemma packageLoop_copiedCount:
  "copiedCount (snd (snd (packageLoop pf projectRoot outDirPath verb names st))) =
     copiedCount (snd st)
     + length (filter (\<lambda>x. case filesCopied pf projectRoot outDirPath verb x of
                               Some k \<Rightarrow> 0 < k | None \<Rightarrow> False)
                 (calls pf projectRoot outDirPath verb names (fst st)))"
proof (induction names arbitrary: st)
  case Nil
  show ?case by simp
next
  case (Cons n rest)
  show ?case
  proof (cases "processDependency pf projectRoot n outDirPath verb (fst st)")
    case (Inl e)
    thus ?thesis by (simp add: filesCopied_def)
  next
    case (Inr r)
    define st1 where
      "st1 = (fst r, if snd r > 0 then (snd st)\<lparr>copiedCount := copiedCount (snd st) + 1\<rparr>
                     else (snd st)\<lparr>skippedCount := skippedCount (snd st) + 1\<rparr>)"
    have "fst st1 = fst r"
      and "copiedCount (snd st1) = copiedCount (snd st) + (if snd r > 0 then 1 else 0)"
      by (simp_all add: st1_def)
    thus ?thesis using Cons.IH [of st1] Inr by (simp add: filesCopied_def st1_def [symmetric])
  qed
qed

lemma packageLoop_skippedCount:
  "skippedCount (snd (snd (packageLoop pf projectRoot outDirPath verb names st))) =
     skippedCount (snd st)
     + length (filter (\<lambda>x. filesCopied pf projectRoot outDirPath verb x = Some 0)
                 (calls pf projectRoot outDirPath verb names (fst st)))"
proof (induction names arbitrary: st)
  case Nil
  show ?case by simp
next
  case (Cons n rest)
  show ?case
  proof (cases "processDependency pf projectRoot n outDirPath verb (fst st)")
    case (Inl e)
    thus ?thesis by (simp add: filesCopied_def)
  next
    case (Inr r)
    define st1 where
      "st1 = (fst r, if snd r > 0 then (snd st)\<lparr>copiedCount := copiedCount (snd st) + 1\<rparr>
                     else (snd st)\<lparr>skippedCount := skippedCount (snd st) + 1\<rparr>)"
    have "fst st1 = fst r"
      and "skippedCount (snd st1) = skippedCount (snd st) + (if snd r > 0 then 0 else 1)"
      by (simp_all add: st1_def)
    thus ?thesis using Cons.IH [of st1] Inr by (simp add: filesCopied_def st1_def [symmetric])
  qed
qed

subsection \<open>What is printed\<close>

lemma allDependencies_distinct:
  "allDependencies packageJson = Inr deps \<Longrightarrow> distinct (map fst deps)"
  by (auto simp: allDependencies_def distinct_foldl_set_property split: sum.splits)

lemma readManifest_distinct:
  "readManifest JSON_parse projectRoot fs0 = Inr deps \<Longrightarrow> distinct (Object_keys deps)"
  by (auto simp: readManifest_def Let_def split: sum.splits option.splits
      intro: distinct_Object_keys allDependencies_distinct)

text \<open>No step of \<^verbatim>\<open>processDependency\<close> prints the summary line.\<close>

lemma copyReadme_console:
  "\<exists>ms. console (fst (copyReadme packageName packageDir outputDir verb st)) = console (fst st) @ ms
        \<and> list_all (\<lambda>l. \<not> is_summary l) ms"
  by (auto simp: copyReadme_def Let_def console_log_def console_error_def split: sum.splits)

lemma copyLicense_console:
  "\<exists>ms. console (fst (copyLicense packageName packageDir outputDir verb lf st)) = console (fst st) @ ms
        \<and> list_all (\<lambda>l. \<not> is_summary l) ms"
  by (auto simp: copyLicense_def Let_def console_log_def console_error_def split: sum.splits)

lemma copyLicenses_console:
  "\<exists>ms. console (fst (copyLicenses packageName packageDir outputDir verb lfs st)) = console (fst st) @ ms
        \<and> list_all (\<lambda>l. \<not> is_summary l) ms"
proof (induction lfs arbitrary: st)
  case Nil
  show ?case by simp
next
  case (Cons lf lfs)
  obtain ms1 where 1: "console (fst (copyLicense packageName packageDir outputDir verb lf st))
      = console (fst st) @ ms1" "list_all (\<lambda>l. \<not> is_summary l) ms1"
    using copyLicense_console by blast
  obtain ms2 where 2: "console (fst (copyLicenses packageName packageDir outputDir verb lfs
        (copyLicense packageName packageDir outputDir verb lf st)))
      = console (fst (copyLicense packageName packageDir outputDir verb lf st)) @ ms2"
      "list_all (\<lambda>l. \<not> is_summary l) ms2"
    using Cons.IH by blast
  show ?case
    using 1 2 by (intro exI [of _ "ms1 @ ms2"]) simp
qed

lemma processDependency_console:
  assumes "processDependency pf projectRoot packageName outDirPath verb w = Inr r"
  shows "\<exists>ms. console (fst r) = console w @ ms \<and> list_all (\<lambda>l. \<not> is_summary l) ms"
proof -
  let ?pd = "join projectRoot [''node_modules'', packageName]"
  let ?od = "join outDirPath [packageName]"
  obtain fs1 where m: "mkdir pf (fs w) ?od = Inr fs1"
    using assms by (auto simp: processDependency_def Let_def split: sum.splits)
  define st1 where "st1 = copyReadme packageName ?pd ?od verb (w\<lparr>fs := fs1\<rparr>, 0)"
  define st2 where
    "st2 = copyLicenses packageName ?pd ?od verb (getLicenseFiles pf (fs (fst st1)) ?pd) st1"
  obtain ms1 where 1: "console (fst st1) = console w @ ms1" "list_all (\<lambda>l. \<not> is_summary l) ms1"
    using copyReadme_console [of packageName ?pd ?od verb "(w\<lparr>fs := fs1\<rparr>, 0)"]
    by (auto simp: st1_def)
  obtain ms2 where 2: "console (fst st2) = console (fst st1) @ ms2"
      "list_all (\<lambda>l. \<not> is_summary l) ms2"
    using copyLicenses_console unfolding st2_def by blast
  have "console (fst r) = console (fst st2) \<or> console (fst r) = console (fst st2) @ [Stdout (NoFilesFound packageName)]"
    using assms m by (auto simp: processDependency_def Let_def st1_def st2_def console_log_def)
  then show ?thesis
  proof
    assume "console (fst r) = console (fst st2)"
    then show ?thesis using 1 2 by (intro exI [of _ "ms1 @ ms2"]) simp
  next
    assume "console (fst r) = console (fst st2) @ [Stdout (NoFilesFound packageName)]"
    then show ?thesis
      using 1 2 by (intro exI [of _ "ms1 @ ms2 @ [Stdout (NoFilesFound packageName)]"]) simp
  qed
qed

lemma packageLoop_console:
  "\<exists>ms. console (fst (snd (packageLoop pf projectRoot outDirPath verb names st)))
           = console (fst st) @ ms \<and> list_all (\<lambda>l. \<not> is_summary l) ms"
proof (induction names arbitrary: st)
  case Nil
  show ?case by simp
next
  case (Cons a names)
  show ?case
  proof (cases "processDependency pf projectRoot a outDirPath verb (fst st)")
    case (Inl e)
    then show ?thesis by simp
  next
    case (Inr r)
    let ?st1 = "(fst r, if snd r > 0
             then (snd st)\<lparr>copiedCount := copiedCount (snd st) + 1\<rparr>
             else (snd st)\<lparr>skippedCount := skippedCount (snd st) + 1\<rparr>)"
    obtain ms1 where 1: "console (fst r) = console (fst st) @ ms1"
        "list_all (\<lambda>l. \<not> is_summary l) ms1"
      using processDependency_console [OF Inr] by blast
    obtain ms2 where 2: "console (fst (snd (packageLoop pf projectRoot outDirPath verb names ?st1)))
        = console (fst ?st1) @ ms2" "list_all (\<lambda>l. \<not> is_summary l) ms2"
      using Cons.IH by blast
    show ?thesis
      using Inr 1 2 by (intro exI [of _ "ms1 @ ms2"]) simp
  qed
qed


subsection \<open>One call of \<^verbatim>\<open>processDependency\<close>\<close>

lemma processDependency_Inr_eq:
  assumes "mkdir pf (fs w) (join outDirPath [packageName]) = Inr fs1"
    and "st1 = copyReadme packageName (join projectRoot [''node_modules'', packageName])
                 (join outDirPath [packageName]) verb (w\<lparr>fs := fs1\<rparr>, 0)"
    and "st2 = copyLicenses packageName (join projectRoot [''node_modules'', packageName])
                 (join outDirPath [packageName]) verb
                 (getLicenseFiles pf (fs (fst st1)) (join projectRoot [''node_modules'', packageName]))
                 st1"
  shows "processDependency pf projectRoot packageName outDirPath verb w
           = Inr (if snd st2 = 0 \<and> verb then console_log (NoFilesFound packageName) (fst st2)
                  else fst st2, snd st2)"
  unfolding assms(2,3) using assms(1) by (simp add: processDependency_def Let_def)

lemma console_mono_copyLicenses:
  "set (console (fst st)) \<subseteq> set (console (fst (copyLicenses packageName packageDir outputDir verb lfs st)))"
  using copyLicenses_console [of packageName packageDir outputDir verb lfs st] by auto

lemma copyLicense_outcome:
  "(\<exists>e. Stderr (FailedLicense lf packageName e)
          \<in> set (console (fst (copyLicense packageName packageDir outputDir verb lf st))))
   \<or> (is_file (fs (fst (copyLicense packageName packageDir outputDir verb lf st))) (join outputDir [lf])
      \<and> snd (copyLicense packageName packageDir outputDir verb lf st) = snd st + 1
      \<and> (verb \<longrightarrow> Stdout (CopiedLicense lf packageName)
            \<in> set (console (fst (copyLicense packageName packageDir outputDir verb lf st)))))"
proof (cases "copyText (fs (fst st)) (join packageDir [lf]) (join outputDir [lf])")
  case (Inl e)
  then show ?thesis by (auto simp: copyLicense_def Let_def console_error_def)
next
  case (Inr fs')
  then obtain c where "writeFile (fs (fst st)) (join outputDir [lf]) c = Inr fs'"
    by (auto simp: copyText_def split: sum.splits)
  then have "is_file fs' (join outputDir [lf])"
    by (simp add: is_file_iff writeFile_Inr(4))
  then show ?thesis using Inr by (simp add: copyLicense_def Let_def console_log_def)
qed

lemma copyLicenses_outcome:
  assumes "lf \<in> set lfs"
  shows "(\<exists>e. Stderr (FailedLicense lf packageName e)
          \<in> set (console (fst (copyLicenses packageName packageDir outputDir verb lfs st))))
   \<or> (is_file (fs (fst (copyLicenses packageName packageDir outputDir verb lfs st))) (join outputDir [lf])
      \<and> (verb \<longrightarrow> Stdout (CopiedLicense lf packageName)
            \<in> set (console (fst (copyLicenses packageName packageDir outputDir verb lfs st)))))"
  using assms
proof (induction lfs arbitrary: st)
  case Nil
  then show ?case by simp
next
  case (Cons a lfs)
  let ?st1 = "copyLicense packageName packageDir outputDir verb a st"
  let ?st2 = "copyLicenses packageName packageDir outputDir verb lfs ?st1"
  show ?case
  proof (cases "lf \<in> set lfs")
    case True
    then show ?thesis using Cons.IH [of ?st1] by simp
  next
    case False
    then have eq: "lf = a" using Cons.prems by simp
    have mono: "set (console (fst ?st1)) \<subseteq> set (console (fst ?st2))"
      by (rule console_mono_copyLicenses)
    have pers: "persists (fs (fst ?st1)) (fs (fst ?st2))"
      by (rule copyLicenses_persists)
    from copyLicense_outcome [of a packageName packageDir outputDir verb st]
    show ?thesis
    proof
      assume "\<exists>e. Stderr (FailedLicense a packageName e) \<in> set (console (fst ?st1))"
      then show ?thesis using mono unfolding eq by auto
    next
      assume ok: "is_file (fs (fst ?st1)) (join outputDir [a])
        \<and> snd ?st1 = snd st + 1
        \<and> (verb \<longrightarrow> Stdout (CopiedLicense a packageName) \<in> set (console (fst ?st1)))"
      then have "is_file (fs (fst ?st2)) (join outputDir [a])"
        using pers by (auto dest: persists_file)
      then show ?thesis using ok mono unfolding eq by auto
    qed
  qed
qed


subsection \<open>Running the model on the example states\<close>

lemmas run_defs = main_def extractNpmReadmes_def readManifest_def processDependency_def
  copyReadme_def copyLicense_def copyText_def getLicenseFiles_def glob_def readdir_def
  parse_pattern_def same_char_def to_upper_def fileExists_def access_def readFile_def
  writeFile_def mkdir_def mkdir_one_def lookup_def is_dir_def is_file_def join_def
  allDependencies_def set_property_def Object_keys_def is_array_index_def digits_value_def
  console_log_def console_error_def utf8_decode_def utf8_encode_def utf8_encode_cp_def
  utf8_init_def utf8_lead_def Let_def linux_def macos_def readonly_def defaults_def
  calls.simps filesCopied_def mkdir_throws_def


lemma manifest_foo_read:
  "readManifest (\<lambda>s. Some manifest_foo) [''proj''] fs_bare = Inr [(''foo'', JString ''1.0.0'')]"
  "readManifest (\<lambda>s. Some manifest_foo) [''proj''] fs_blocked = Inr [(''foo'', JString ''1.0.0'')]"
  "Object_keys [(''foo'', JString ''1.0.0'')] = [''foo'']"
  by (simp_all add: run_defs fs_bare_def fs_blocked_def manifest_foo_def)

lemma run_blocked:
  "main linux (\<lambda>s. Some manifest_foo) [''proj''] defaults \<lparr>fs = fs_blocked, console = []\<rparr>
   = (1, \<lparr>fs = fs_blocked, console = [Stderr (ErrorExtracting EEXIST)]\<rparr>)"
  by (simp add: run_defs fs_blocked_def manifest_foo_def)

lemma run_leftpad:
  "main linux (\<lambda>s. Some manifest_leftpad) [''proj''] defaults \<lparr>fs = fs_leftpad, console = []\<rparr>
   = (0, \<lparr>fs = fs_leftpad @
                 [([''proj'', ''docs-deps''], Dir),
                  ([''proj'', ''docs-deps'', ''left-pad''], Dir),
                  ([''proj'', ''docs-deps'', ''left-pad'', ''README.md''], File [104, 105]),
                  ([''proj'', ''docs-deps'', ''left-pad'', ''license.md''], File [109, 105, 116])],
          console = [Stdout (Processed 1 0 [''proj'', ''docs-deps''])]\<rparr>)"
  by (simp add: run_defs fs_leftpad_def manifest_leftpad_def)

lemma run_climb:
  "main linux (\<lambda>s. Some manifest_climb) [''proj''] nested \<lparr>fs = fs_climb, console = []\<rparr>
   = (0, \<lparr>fs = fs_climb @
                 [([''proj'', ''o1''], Dir),
                  ([''proj'', ''o1'', ''o2''], Dir),
                  ([''proj'', ''o1'', ''o1''], Dir),
                  ([''proj'', ''o1'', ''o1'', ''o2''], Dir),
                  ([''proj'', ''o1'', ''o1'', ''o2'', ''x''], Dir),
                  ([''proj'', ''o1'', ''o2'', ''x''], Dir),
                  ([''proj'', ''o1'', ''o2'', ''x'', ''README.md''], File [104, 105])],
          console = [Stdout (Processed 1 1 [''proj'', ''o1'', ''o2''])]\<rparr>)"
  by (simp add: run_defs fs_climb_def manifest_climb_def nested_def)

lemma manifest_abc_read:
  "readManifest (\<lambda>s. Some manifest_abc) [''proj''] fs_abc
     = Inr [(''a'', JString ''1''), (''b'', JString ''2''), (''c'', JString ''1'')]"
  "readManifest (\<lambda>s. Some manifest_abc) [''proj''] fs_bare
     = Inr [(''a'', JString ''1''), (''b'', JString ''2''), (''c'', JString ''1'')]"
  "Object_keys [(''a'', JString ''1''), (''b'', JString ''2''), (''c'', JString ''1'')]
     = [''a'', ''b'', ''c'']"
  by (simp_all add: run_defs fs_abc_def fs_bare_def manifest_abc_def)

lemma run_abc:
  "main linux (\<lambda>s. Some manifest_abc) [''proj''] defaults \<lparr>fs = fs_abc, console = []\<rparr>
   = (1, \<lparr>fs = fs_abc @
                 [([''proj'', ''docs-deps'', ''a''], Dir),
                  ([''proj'', ''docs-deps'', ''a'', ''README.md''], File [104, 105])],
          console = [Stderr (ErrorExtracting EEXIST)]\<rparr>)"
  by (simp add: run_defs fs_abc_def manifest_abc_def)


subsection \<open>Which names the license pattern matches\<close>

text \<open>
  Compared case-sensitively the pattern matches the names that begin with \<^verbatim>\<open>license\<close> or
  \<^verbatim>\<open>licence\<close> in lower case; compared case-insensitively, those whose first seven characters
  are these words in any mix of cases. Any suffix is accepted.
\<close>

lemma glob_match_Star_all: "glob_match nc [Star] s"
  by (induction s) simp_all

lemma glob_match_Lit:
  "glob_match nc (Lit c # ps) s \<longleftrightarrow> (\<exists>d ds. s = d # ds \<and> same_char nc c d \<and> glob_match nc ps ds)"
  by (cases s) simp_all

lemma glob_match_Class:
  "glob_match nc (Class cs # ps) s
     \<longleftrightarrow> (\<exists>d ds. s = d # ds \<and> (\<exists>c\<in>set cs. same_char nc c d) \<and> glob_match nc ps ds)"
  by (cases s) (simp_all add: list_ex_iff)

lemma license_pattern:
  "parse_pattern ''licen[cs]e*'' =
     [Lit CHR ''l'', Lit CHR ''i'', Lit CHR ''c'', Lit CHR ''e'', Lit CHR ''n'',
      Class ''cs'', Lit CHR ''e'', Star]"
  by (simp add: parse_pattern_def)

lemma license_match_case_sensitive:
  "glob_match False (parse_pattern ''licen[cs]e*'') s
     \<longleftrightarrow> prefix ''license'' s \<or> prefix ''licence'' s"
  unfolding license_pattern glob_match_Lit glob_match_Class prefix_def
  by (auto simp: same_char_def glob_match_Star_all)

lemma to_upper_pattern_letters:
  "to_upper CHR ''l'' = CHR ''L''" "to_upper CHR ''i'' = CHR ''I''" "to_upper CHR ''c'' = CHR ''C''"
  "to_upper CHR ''e'' = CHR ''E''" "to_upper CHR ''n'' = CHR ''N''" "to_upper CHR ''s'' = CHR ''S''"
  by (simp_all add: to_upper_def)

lemma same_char_nocase:
  "same_char True CHR ''l'' d \<longleftrightarrow> to_upper d = CHR ''L''"
  "same_char True CHR ''i'' d \<longleftrightarrow> to_upper d = CHR ''I''"
  "same_char True CHR ''c'' d \<longleftrightarrow> to_upper d = CHR ''C''"
  "same_char True CHR ''e'' d \<longleftrightarrow> to_upper d = CHR ''E''"
  "same_char True CHR ''n'' d \<longleftrightarrow> to_upper d = CHR ''N''"
  "same_char True CHR ''s'' d \<longleftrightarrow> to_upper d = CHR ''S''"
  by (auto simp: same_char_def to_upper_pattern_letters)

lemma license_match_nocase_shape:
  "glob_match True (parse_pattern ''licen[cs]e*'') s
     \<longleftrightarrow> (\<exists>d1 d2 d3 d4 d5 d6 d7 r. s = d1 # d2 # d3 # d4 # d5 # d6 # d7 # r
           \<and> to_upper d1 = CHR ''L'' \<and> to_upper d2 = CHR ''I'' \<and> to_upper d3 = CHR ''C''
           \<and> to_upper d4 = CHR ''E'' \<and> to_upper d5 = CHR ''N''
           \<and> (to_upper d6 = CHR ''C'' \<or> to_upper d6 = CHR ''S'') \<and> to_upper d7 = CHR ''E'')"
  unfolding license_pattern glob_match_Lit glob_match_Class
  by (auto simp: same_char_nocase glob_match_Star_all)

lemma license_files_macos:
  "getLicenseFiles macos fs_leftpad [''proj'', ''node_modules'', ''left-pad'']
     = [''LICENSE'', ''license.md'']"
  by (simp add: run_defs fs_leftpad_def)

text \<open>
  Claim C1. The claim asks for a case-insensitive match, so that \<^verbatim>\<open>LICENSE\<close> and \<^verbatim>\<open>license.md\<close> of
  one package are both found and copied. The pattern is written in lower case and \<^verbatim>\<open>glob\<close> is
  called without any option, so the comparison is the platform's: where it is case-sensitive
  the search returns \<^verbatim>\<open>license.md\<close> alone, and the regular file \<^verbatim>\<open>LICENSE\<close> of the package is
  not in the output after the run.
\<close>

theorem uppercase_license_missed_when_case_sensitive:
  "is_file fs_leftpad [''proj'', ''node_modules'', ''left-pad'', ''LICENSE'']
   \<and> getLicenseFiles linux fs_leftpad (join [''proj''] [''node_modules'', ''left-pad''])
       = [''license.md'']
   \<and> lookup (fs (snd (main linux (\<lambda>s. Some manifest_leftpad) [''proj''] defaults
                         \<lparr>fs = fs_leftpad, console = []\<rparr>)))
         [''proj'', ''docs-deps'', ''left-pad'', ''LICENSE''] = None"
  by (simp add: run_defs fs_leftpad_def manifest_leftpad_def)

subsection \<open>The content of a copied README\<close>

text \<open>
  Claim C2, amended. The program reads \<^verbatim>\<open>README.md\<close> as UTF-8 text and writes the text back as
  UTF-8. When the source file is well-formed UTF-8 (the encoding of a sequence of Unicode
  scalar values) and the copy succeeds, the file written to the output subdirectory has
  exactly the bytes of the source.
\<close>

theorem readme_copy_round_trip:
  assumes "lookup (fs w) (join packageDir [''README.md'']) = Some (File (utf8_encode t))"
    and "list_all scalar_value t"
    and "snd (copyReadme packageName packageDir outputDir verb (w, n)) = n + 1"
  shows "lookup (fs (fst (copyReadme packageName packageDir outputDir verb (w, n))))
           (join outputDir [''README.md'']) = Some (File (utf8_encode t))"
proof -
  let ?src = "join packageDir [''README.md'']" and ?dst = "join outputDir [''README.md'']"
  have ex: "fileExists (fs w) ?src"
    using assms(1) by (simp add: fileExists_def access_def)
  have rd: "readFile (fs w) ?src = Inr t"
    using assms(1,2) by (simp add: readFile_def utf8_decode_encode)
  show ?thesis
  proof (cases "writeFile (fs w) ?dst t")
    case (Inl e)
    then have "snd (copyReadme packageName packageDir outputDir verb (w, n)) = n"
      using ex rd by (simp add: copyReadme_def copyText_def Let_def)
    with assms(3) show ?thesis by simp
  next
    case (Inr fs')
    then have "fs (fst (copyReadme packageName packageDir outputDir verb (w, n))) = fs'"
      using ex rd by (simp add: copyReadme_def copyText_def Let_def console_log_def)
    then show ?thesis using writeFile_Inr(4) [OF Inr, of ?dst] by simp
  qed
qed

theorem readme_copy_round_trip_witness:
  "lookup (fs_leftpad @ [([''proj'', ''docs-deps''], Dir), ([''proj'', ''docs-deps'', ''left-pad''], Dir),
                         ([''proj'', ''docs-deps'', ''left-pad'', ''README.md''], File [104, 105])])
     (join [''proj'', ''docs-deps'', ''left-pad''] [''README.md'']) = Some (File (utf8_encode [104, 105]))"
proof -
  let ?fs1 = "fs_leftpad @ [([''proj'', ''docs-deps''], Dir),
                            ([''proj'', ''docs-deps'', ''left-pad''], Dir)]"
  let ?w = "\<lparr>fs = ?fs1, console = []\<rparr>"
  have r: "copyReadme ''left-pad'' [''proj'', ''node_modules'', ''left-pad'']
             [''proj'', ''docs-deps'', ''left-pad''] False (?w, 0)
           = (\<lparr>fs = ?fs1 @ [([''proj'', ''docs-deps'', ''left-pad'', ''README.md''], File [104, 105])],
               console = []\<rparr>, 1)"
    by (simp add: run_defs fs_leftpad_def)
  have h1: "lookup (fs ?w) (join [''proj'', ''node_modules'', ''left-pad''] [''README.md''])
      = Some (File (utf8_encode [104, 105]))"
    by (simp add: run_defs fs_leftpad_def)
  have h2: "list_all scalar_value [104, 105]"
    by (simp add: scalar_value_def)
  have h3: "snd (copyReadme ''left-pad'' [''proj'', ''node_modules'', ''left-pad'']
             [''proj'', ''docs-deps'', ''left-pad''] False (?w, 0)) = 0 + 1"
    unfolding r by simp
  show ?thesis
    using readme_copy_round_trip [OF h1 h2 h3] unfolding r by simp
qed

text \<open>
  The claim as first stated, for arbitrary bytes, fails: the byte \<^verbatim>\<open>0xFF\<close> is not UTF-8, it is
  read as U+FFFD, and the copy that succeeds writes the three bytes \<^verbatim>\<open>EF BF BD\<close>.
\<close>

theorem readme_copy_changes_bytes:
  "lookup fs_latin1 (join (join [''proj''] [''node_modules'', ''foo'']) [''README.md''])
     = Some (File [0xFF])
   \<and> snd (copyReadme ''foo'' (join [''proj''] [''node_modules'', ''foo''])
            (join [''proj'', ''docs-deps''] [''foo'']) False (\<lparr>fs = fs_latin1, console = []\<rparr>, 0)) = 1
   \<and> lookup (fs (fst (copyReadme ''foo'' (join [''proj''] [''node_modules'', ''foo''])
            (join [''proj'', ''docs-deps''] [''foo'']) False (\<lparr>fs = fs_latin1, console = []\<rparr>, 0))))
         (join (join [''proj'', ''docs-deps''] [''foo'']) [''README.md''])
     = Some (File [0xEF, 0xBF, 0xBD])"
  by (simp add: run_defs fs_latin1_def)

subsection \<open>Two runs in sequence: single calls\<close>

lemma exists_iff: "lookup a p \<noteq> None \<longleftrightarrow> is_dir a p \<or> is_file a p"
proof (cases "lookup a p")
  case None
  then show ?thesis by (simp add: is_dir_def is_file_iff)
next
  case (Some n)
  then show ?thesis by (cases n) (simp_all add: is_dir_def is_file_iff)
qed

lemma persists_exists: "persists a b \<Longrightarrow> lookup a p \<noteq> None \<Longrightarrow> lookup b p \<noteq> None"
  unfolding exists_iff by (auto dest: persists_dir persists_file)

lemma in_step_at:
  "in_step A F t u \<Longrightarrow>
     lookup u p = lookup t p \<or> (lookup t p = lookup A p \<and> lookup u p = lookup F p)"
  by (simp add: in_step_def)

lemma in_step_start: "in_step A F A F"
  by (simp add: in_step_def)

lemma in_step_end: "in_step A F F u \<Longrightarrow> lookup u p = lookup F p"
  by (auto simp: in_step_def)

lemma in_step_same:
  assumes "in_step A F t u" "lookup A p = lookup F p"
  shows "lookup u p = lookup t p"
  using assms by (auto simp: in_step_def)

lemma in_step_dir:
  assumes "in_step A F t u" "persists t F" "is_dir t p"
  shows "is_dir u p"
proof -
  have "is_dir F p" using assms(2,3) by (rule persists_dir)
  then show ?thesis using in_step_at [OF assms(1), of p] assms(3) by (auto simp: is_dir_def)
qed

lemma in_step_file:
  assumes "in_step A F t u" "persists t F" "is_file t p"
  shows "is_file u p"
proof -
  have "is_file F p" using assms(2,3) by (rule persists_file)
  then show ?thesis using in_step_at [OF assms(1), of p] assms(3) by (auto simp: is_file_iff)
qed

text \<open>\<^verbatim>\<open>mkdir\<close> in both runs.\<close>

lemma in_step_mkdir:
  assumes s: "in_step A F t u" and m: "mkdir pf t p = Inr t'" and f: "persists t' F"
  shows "\<exists>u'. mkdir pf u p = Inr u' \<and> in_step A F t' u'"
proof -
  have nf: "\<not> is_file u q" if q: "prefix q p" for q
  proof
    assume uf: "is_file u q"
    have "is_dir t' q" using m q by (rule mkdir_Inr_is_dir)
    then have "is_dir F q" using f by (rule persists_dir [rotated])
    moreover have "\<not> is_file t q" using m q by (rule mkdir_Inr(1))
    ultimately show False
      using in_step_at [OF s, of q] uf by (auto simp: is_file_iff is_dir_def)
  qed
  have nd: "\<not> (lookup u q = None \<and> mkdir_denied pf q)" if q: "prefix q p" for q
  proof
    assume un: "lookup u q = None \<and> mkdir_denied pf q"
    have "is_dir t' q" using m q by (rule mkdir_Inr_is_dir)
    then have "is_dir F q" using f by (rule persists_dir [rotated])
    moreover have "\<not> (lookup t q = None \<and> mkdir_denied pf q)"
      using mkdir_Inr(2) [OF m q] by blast
    ultimately show False
      using in_step_at [OF s, of q] un by (auto simp: is_dir_def)
  qed
  have ok: "\<not> (\<exists>s\<in>set p. CHR 0x00 \<in> set s \<or> 255 < length s)"
    using m mkdir_Inl_iff [of pf t p] by auto
  have "\<not> (\<exists>e. mkdir pf u p = Inl e)"
    unfolding mkdir_Inl_iff using nf nd ok by blast
  then obtain u' where u': "mkdir pf u p = Inr u'" by (cases "mkdir pf u p") auto
  have "in_step A F t' u'"
    unfolding in_step_def
  proof
    fix q
    show "lookup u' q = lookup t' q \<or> (lookup t' q = lookup A q \<and> lookup u' q = lookup F q)"
    proof (cases "prefix q p")
      case True
      have "is_dir t' q" using m True by (rule mkdir_Inr_is_dir)
      moreover have "is_dir u' q" using u' True by (rule mkdir_Inr_is_dir)
      ultimately show ?thesis by (simp add: is_dir_def)
    next
      case False
      then show ?thesis
        using s by (simp add: mkdir_Inr(3) [OF m] mkdir_Inr(3) [OF u'] in_step_def)
    qed
  qed
  with u' show ?thesis by blast
qed

lemma in_step_mkdir_fails:
  assumes s: "in_step A t t u" and m: "mkdir pf t p = Inl e"
  shows "\<exists>e'. mkdir pf u p = Inl e'"
  using mkdir_same [of u t pf p] in_step_end [OF s] m by blast

text \<open>\<^verbatim>\<open>writeFile\<close> in both runs, into a directory that is there in the first.\<close>

lemma in_step_writeFile:
  assumes s: "in_step A F t u" and w: "writeFile t p c = Inr t'" and f: "persists t' F"
  shows "\<exists>u'. writeFile u p c = Inr u' \<and> in_step A F t' u'"
proof -
  have tF: "persists t F" using writeFile_persists [OF w] f by (rule persists_trans)
  have d: "is_dir u (butlast p)"
    using s tF writeFile_Inr(3) [OF w] by (rule in_step_dir)
  have "is_file t' p" by (simp add: is_file_iff writeFile_Inr(4) [OF w])
  then have Ff: "is_file F p" using f by (rule persists_file [rotated])
  have nd: "\<not> is_dir u p"
    using in_step_at [OF s, of p] writeFile_Inr(2) [OF w] Ff
    by (auto simp: is_dir_def is_file_iff)
  obtain u' where u': "writeFile u p c = Inr u'"
    using d nd writeFile_Inr_iff by blast
  have "in_step A F t' u'"
    using s by (simp add: in_step_def writeFile_Inr(4) [OF w] writeFile_Inr(4) [OF u'])
  with u' show ?thesis by blast
qed

lemma in_step_writeFile_fails:
  assumes s: "in_step A F t u" and f: "persists t F" and w: "writeFile t p c = Inl e"
    and d: "is_dir t (butlast p)"
  shows "\<exists>e'. writeFile u p c = Inl e'"
proof -
  have "is_dir t p"
    using w d writeFile_Inr_iff [of t p c] by (cases "writeFile t p c") auto
  then have "is_dir u p" using s f by (rule in_step_dir [rotated 2])
  then show ?thesis by (simp add: writeFile_def)
qed

text \<open>A copy in both runs, of a source that reads the same.\<close>

lemma in_step_copyText:
  assumes s: "in_step A F t u" and r: "lookup u src = lookup t src"
    and c: "copyText t src dst = Inr t'" and f: "persists t' F"
  shows "\<exists>u'. copyText u src dst = Inr u' \<and> in_step A F t' u'"
proof -
  obtain content where rd: "readFile t src = Inr content" and w: "writeFile t dst content = Inr t'"
    using c by (auto simp: copyText_def split: sum.splits)
  have "readFile u src = Inr content" using rd r by (simp add: readFile_def)
  then show ?thesis
    using in_step_writeFile [OF s w f] by (simp add: copyText_def)
qed

lemma in_step_copyText_fails:
  assumes s: "in_step A F t u" and r: "lookup u src = lookup t src" and f: "persists t F"
    and c: "copyText t src dst = Inl e" and d: "is_dir t (butlast dst)"
  shows "\<exists>e'. copyText u src dst = Inl e'"
proof (cases "readFile t src")
  case (Inl e1)
  then have "readFile u src = Inl e1" using r by (simp add: readFile_def)
  then show ?thesis by (simp add: copyText_def)
next
  case (Inr content)
  then have w: "writeFile t dst content = Inl e" using c by (simp add: copyText_def)
  have "readFile u src = Inr content" using Inr r by (simp add: readFile_def)
  then show ?thesis
    using in_step_writeFile_fails [OF s f w d] by (simp add: copyText_def)
qed

subsection \<open>Two runs in sequence: the steps of \<^verbatim>\<open>processDependency\<close>\<close>

lemma segments_plain: "CHR ''/'' \<notin> set s \<Longrightarrow> segments s = [s]"
  by (induction s) auto

lemma join_file_name: "file_name c \<Longrightarrow> join d [c] = d @ [c]"
  by (simp add: join_def file_name_def segments_plain)

lemma join_README: "join d [''README.md''] = d @ [''README.md'']"
  by (rule join_file_name) (simp add: file_name_def)

lemma set_readdir: "set (readdir a d) = {c. lookup a (d @ [c]) \<noteq> None}"
proof -
  have "c \<in> set (readdir a d) \<longleftrightarrow> d @ [c] \<in> fst ` set a" for c
  proof
    assume "c \<in> set (readdir a d)"
    then obtain p where p: "p \<in> fst ` set a" "p \<noteq> []" "butlast p = d" "last p = c"
      by (auto simp: readdir_def)
    then have "p = d @ [c]" using append_butlast_last_id [of p] by simp
    with p(1) show "d @ [c] \<in> fst ` set a" by simp
  next
    assume "d @ [c] \<in> fst ` set a"
    then have "c \<in> last ` {p \<in> fst ` set a. p \<noteq> [] \<and> butlast p = d}"
      by (intro image_eqI [of _ _ "d @ [c]"]) simp_all
    then show "c \<in> set (readdir a d)" by (simp add: readdir_def)
  qed
  then show ?thesis
    by (auto simp: lookup_def map_of_eq_None_iff)
qed

lemma readdir_determined:
  assumes "\<And>c. lookup a (d @ [c]) \<noteq> None \<longleftrightarrow> lookup b (d @ [c]) \<noteq> None"
  shows "readdir a d = readdir b d"
proof -
  have "set (readdir a d) = set (readdir b d)"
    unfolding set_readdir using assms by auto
  moreover have "readdir x d = sorted_list_of_set (set (readdir x d))" for x
  proof -
    define ys where "ys = map last (filter (\<lambda>p. p \<noteq> [] \<and> butlast p = d) (map fst x))"
    have "sorted_list_of_set (set (readdir x d)) = sorted_list_of_set (set ys)"
      by (simp only: readdir_def ys_def set_sort set_remdups)
    also have "\<dots> = sort (remdups ys)"
      by (rule sorted_list_of_set_sort_remdups)
    finally show ?thesis by (simp only: readdir_def ys_def)
  qed
  ultimately show ?thesis by metis
qed

text \<open>What the hypotheses on a package directory give for every entry.\<close>

lemma same_package_dir_entry:
  assumes "same_package_dir a b d"
  shows "lookup a (d @ [c]) = lookup b (d @ [c])"
proof (cases "c \<in> set (readdir a d)")
  case True
  then show ?thesis using assms by (auto simp: same_package_dir_def list_all_iff)
next
  case False
  moreover have "c \<notin> set (readdir b d)"
    using False assms by (simp add: same_package_dir_def)
  ultimately show ?thesis by (simp add: set_readdir)
qed

lemma plain_entries_name:
  "plain_entries a d \<Longrightarrow> lookup a (d @ [c]) \<noteq> None \<Longrightarrow> file_name c"
  using set_readdir [of a d] by (auto simp: plain_entries_def list_all_iff)

text \<open>The file system and the count after one step of \<^verbatim>\<open>processDependency\<close>.\<close>

lemma fs_copyLicense:
  "fs (fst (copyLicense packageName packageDir outputDir verb lf st)) =
     (case copyText (fs (fst st)) (join packageDir [lf]) (join outputDir [lf]) of
        Inr fs' \<Rightarrow> fs' | Inl e \<Rightarrow> fs (fst st))"
  by (simp add: copyLicense_def Let_def console_log_def console_error_def split: sum.splits)

lemma snd_copyLicense:
  "snd (copyLicense packageName packageDir outputDir verb lf st) =
     (case copyText (fs (fst st)) (join packageDir [lf]) (join outputDir [lf]) of
        Inr fs' \<Rightarrow> snd st + 1 | Inl e \<Rightarrow> snd st)"
  by (simp add: copyLicense_def Let_def split: sum.splits)

lemma fs_copyReadme:
  "fs (fst (copyReadme packageName packageDir outputDir verb st)) =
     (if fileExists (fs (fst st)) (join packageDir [''README.md''])
      then (case copyText (fs (fst st)) (join packageDir [''README.md''])
                   (join outputDir [''README.md'']) of
              Inr fs' \<Rightarrow> fs' | Inl e \<Rightarrow> fs (fst st))
      else fs (fst st))"
  by (simp add: copyReadme_def Let_def console_log_def console_error_def split: sum.splits)

lemma snd_copyReadme:
  "snd (copyReadme packageName packageDir outputDir verb st) =
     (if fileExists (fs (fst st)) (join packageDir [''README.md''])
      then (case copyText (fs (fst st)) (join packageDir [''README.md''])
                   (join outputDir [''README.md'']) of
              Inr fs' \<Rightarrow> snd st + 1 | Inl e \<Rightarrow> snd st)
      else snd st)"
  by (simp add: copyReadme_def Let_def split: sum.splits)

text \<open>A copy step in both runs: the same outcome, and the states stay in step.\<close>

lemma in_step_copy_step:
  assumes s: "in_step A F t u" and r: "lookup u src = lookup t src"
    and d: "is_dir t (butlast dst)"
    and f: "persists (case copyText t src dst of Inr fs' \<Rightarrow> fs' | Inl e \<Rightarrow> t) F"
  shows "(\<exists>t' u'. copyText t src dst = Inr t' \<and> copyText u src dst = Inr u' \<and> in_step A F t' u')
       \<or> (\<exists>e e'. copyText t src dst = Inl e \<and> copyText u src dst = Inl e')"
proof (cases "copyText t src dst")
  case (Inl e)
  then have "persists t F" using f by simp
  then obtain e' where "copyText u src dst = Inl e'"
    using in_step_copyText_fails [OF s r _ Inl d] by blast
  with Inl show ?thesis by simp
next
  case (Inr t')
  then have "persists t' F" using f by simp
  then obtain u' where "copyText u src dst = Inr u'" "in_step A F t' u'"
    using in_step_copyText [OF s r Inr] by blast
  with Inr show ?thesis by simp
qed

lemma in_step_copyLicense:
  assumes s: "in_step A F (fs (fst st)) (fs (fst su))" and n: "snd su = snd st"
    and nm: "file_name lf" and i: "lookup A (pd @ [lf]) = lookup F (pd @ [lf])"
    and d: "is_dir (fs (fst st)) od"
    and f: "persists (fs (fst (copyLicense packageName pd od verb lf st))) F"
  shows "in_step A F (fs (fst (copyLicense packageName pd od verb lf st)))
           (fs (fst (copyLicense packageName pd od verb lf su)))
       \<and> snd (copyLicense packageName pd od verb lf su)
           = snd (copyLicense packageName pd od verb lf st)"
proof -
  have r: "lookup (fs (fst su)) (pd @ [lf]) = lookup (fs (fst st)) (pd @ [lf])"
    using s i by (rule in_step_same)
  have d': "is_dir (fs (fst st)) (butlast (od @ [lf]))" using d by simp
  have f': "persists (case copyText (fs (fst st)) (pd @ [lf]) (od @ [lf]) of
                       Inr fs' \<Rightarrow> fs' | Inl e \<Rightarrow> fs (fst st)) F"
    using f by (simp add: fs_copyLicense join_file_name [OF nm])
  show ?thesis
    using in_step_copy_step [OF s r d' f'] s n
    by (auto simp: fs_copyLicense snd_copyLicense join_file_name [OF nm])
qed

lemma in_step_copyLicenses:
  assumes "in_step A F (fs (fst st)) (fs (fst su))" and "snd su = snd st"
    and "\<forall>lf\<in>set lfs. file_name lf \<and> lookup A (pd @ [lf]) = lookup F (pd @ [lf])"
    and "is_dir (fs (fst st)) od"
    and "persists (fs (fst (copyLicenses packageName pd od verb lfs st))) F"
  shows "in_step A F (fs (fst (copyLicenses packageName pd od verb lfs st)))
           (fs (fst (copyLicenses packageName pd od verb lfs su)))
       \<and> snd (copyLicenses packageName pd od verb lfs su)
           = snd (copyLicenses packageName pd od verb lfs st)"
  using assms
proof (induction lfs arbitrary: st su)
  case Nil
  then show ?case by simp
next
  case (Cons lf lfs)
  let ?st1 = "copyLicense packageName pd od verb lf st"
  let ?su1 = "copyLicense packageName pd od verb lf su"
  have f1: "persists (fs (fst ?st1)) F"
    using copyLicenses_persists [of ?st1 packageName pd od verb lfs] Cons.prems(5)
    by (auto intro: persists_trans)
  have 1: "in_step A F (fs (fst ?st1)) (fs (fst ?su1)) \<and> snd ?su1 = snd ?st1"
    using Cons.prems(1,2,3,4) f1 by (intro in_step_copyLicense) simp_all
  have d1: "is_dir (fs (fst ?st1)) od"
    using copyLicense_persists [of st packageName pd od verb lf] Cons.prems(4)
    by (rule persists_dir)
  show ?case
    using Cons.IH [of ?st1 ?su1] 1 d1 Cons.prems(3,5) by simp
qed

lemma in_step_copyReadme:
  assumes s: "in_step A F (fs (fst st)) (fs (fst su))" and n: "snd su = snd st"
    and i: "lookup A (pd @ [''README.md'']) = lookup F (pd @ [''README.md''])"
    and d: "is_dir (fs (fst st)) od"
    and f: "persists (fs (fst (copyReadme packageName pd od verb st))) F"
  shows "in_step A F (fs (fst (copyReadme packageName pd od verb st)))
           (fs (fst (copyReadme packageName pd od verb su)))
       \<and> snd (copyReadme packageName pd od verb su) = snd (copyReadme packageName pd od verb st)"
proof -
  have r: "lookup (fs (fst su)) (pd @ [''README.md'']) = lookup (fs (fst st)) (pd @ [''README.md''])"
    using s i by (rule in_step_same)
  then have e: "fileExists (fs (fst su)) (pd @ [''README.md''])
      \<longleftrightarrow> fileExists (fs (fst st)) (pd @ [''README.md''])"
    by (simp add: fileExists_def access_def)
  have d': "is_dir (fs (fst st)) (butlast (od @ [''README.md'']))" using d by simp
  show ?thesis
  proof (cases "fileExists (fs (fst st)) (pd @ [''README.md''])")
    case True
    then have f': "persists (case copyText (fs (fst st)) (pd @ [''README.md''])
                                   (od @ [''README.md'']) of
                       Inr fs' \<Rightarrow> fs' | Inl e \<Rightarrow> fs (fst st)) F"
      using f by (simp add: fs_copyReadme join_README)
    show ?thesis
      using in_step_copy_step [OF s r d' f'] s n e True
      by (auto simp: fs_copyReadme snd_copyReadme join_README)
  next
    case False
    then show ?thesis
      using s n e by (simp add: fs_copyReadme snd_copyReadme join_README)
  qed
qed

subsection \<open>Two runs in sequence: one package\<close>

lemma in_step_getLicenseFiles:
  assumes s: "in_step A F t u" and i: "same_package_dir A F pd"
  shows "getLicenseFiles pf u pd = getLicenseFiles pf t pd"
proof -
  have d: "lookup u pd = lookup t pd"
    using s i by (auto intro: in_step_same simp: same_package_dir_def)
  have c: "lookup u (pd @ [c]) = lookup t (pd @ [c])" for c
    using s same_package_dir_entry [OF i] by (rule in_step_same)
  have "readdir u pd = readdir t pd"
    by (rule readdir_determined) (simp add: c)
  with d show ?thesis
    by (simp add: getLicenseFiles_def glob_def is_dir_def is_file_def)
qed

lemma license_files_plain:
  assumes f: "persists t F" and i: "same_package_dir A F pd" and pl: "plain_entries A pd"
    and lf: "lf \<in> set (getLicenseFiles pf t pd)"
  shows "file_name lf"
proof -
  have "lf \<in> set (readdir t pd)"
    using lf by (auto simp: getLicenseFiles_def glob_def split: if_splits)
  then have "lookup t (pd @ [lf]) \<noteq> None" by (simp add: set_readdir)
  then have "lookup F (pd @ [lf]) \<noteq> None" using f by (rule persists_exists [rotated])
  then have "lookup A (pd @ [lf]) \<noteq> None" using same_package_dir_entry [OF i, of lf] by simp
  with pl show ?thesis by (rule plain_entries_name)
qed

lemma fs_processDependency:
  assumes "mkdir pf (fs w) (join outDirPath [packageName]) = Inr fs1"
    and "st1 = copyReadme packageName (join projectRoot [''node_modules'', packageName])
                 (join outDirPath [packageName]) verb (w\<lparr>fs := fs1\<rparr>, 0)"
    and "st2 = copyLicenses packageName (join projectRoot [''node_modules'', packageName])
                 (join outDirPath [packageName]) verb
                 (getLicenseFiles pf (fs (fst st1)) (join projectRoot [''node_modules'', packageName]))
                 st1"
  shows "\<exists>r. processDependency pf projectRoot packageName outDirPath verb w = Inr r
           \<and> fs (fst r) = fs (fst st2) \<and> snd r = snd st2"
  unfolding processDependency_Inr_eq [OF assms] by (simp add: console_log_def)

lemma in_step_processDependency:
  assumes s: "in_step A F (fs wt) (fs wu)"
    and r: "processDependency pf projectRoot packageName outDirPath verb wt = Inr rt"
    and f: "persists (fs (fst rt)) F"
    and i: "same_package_dir A F (join projectRoot [''node_modules'', packageName])"
    and pl: "plain_entries A (join projectRoot [''node_modules'', packageName])"
  shows "\<exists>ru. processDependency pf projectRoot packageName outDirPath verb wu = Inr ru
            \<and> in_step A F (fs (fst rt)) (fs (fst ru)) \<and> snd ru = snd rt"
proof -
  define pd where "pd = join projectRoot [''node_modules'', packageName]"
  define od where "od = join outDirPath [packageName]"
  obtain t1 where m: "mkdir pf (fs wt) od = Inr t1"
    using r unfolding od_def by (rule processDependency_Inr)
  define st1 where "st1 = copyReadme packageName pd od verb (wt\<lparr>fs := t1\<rparr>, 0)"
  define lfs where "lfs = getLicenseFiles pf (fs (fst st1)) pd"
  define st2 where "st2 = copyLicenses packageName pd od verb lfs st1"
  have rt: "fs (fst rt) = fs (fst st2)" "snd rt = snd st2"
    using fs_processDependency [OF m [unfolded od_def] refl refl, where projectRoot = projectRoot and verb = verb] r
    by (simp_all add: st2_def lfs_def st1_def pd_def od_def)
  have f2: "persists (fs (fst st2)) F" using f rt by simp
  have f1: "persists (fs (fst st1)) F"
    using copyLicenses_persists [of st1 packageName pd od verb lfs] f2
    unfolding st2_def by (rule persists_trans)
  have f0: "persists t1 F"
    using copyReadme_persists [of "(wt\<lparr>fs := t1\<rparr>, 0)" packageName pd od verb] f1
    unfolding st1_def by (auto intro: persists_trans)
  obtain u1 where mu: "mkdir pf (fs wu) od = Inr u1" and s0: "in_step A F t1 u1"
    using in_step_mkdir [OF s m f0] by blast
  define su1 where "su1 = copyReadme packageName pd od verb (wu\<lparr>fs := u1\<rparr>, 0)"
  define su2 where "su2 = copyLicenses packageName pd od verb lfs su1"
  have d0: "is_dir t1 od" using m by (rule mkdir_Inr_is_dir) simp
  have s1: "in_step A F (fs (fst st1)) (fs (fst su1)) \<and> snd su1 = snd st1"
    unfolding st1_def su1_def
    using s0 d0 f1 same_package_dir_entry [OF i [folded pd_def], of "''README.md''"]
    by (intro in_step_copyReadme) (simp_all add: st1_def)
  have lu: "getLicenseFiles pf (fs (fst su1)) pd = lfs"
    unfolding lfs_def using s1 i [folded pd_def]
    by (intro in_step_getLicenseFiles [where A = A and F = F]) simp_all
  have d1: "is_dir (fs (fst st1)) od"
    using copyReadme_persists [of "(wt\<lparr>fs := t1\<rparr>, 0)" packageName pd od verb] d0
    unfolding st1_def by (auto dest: persists_dir)
  have names: "\<forall>lf\<in>set lfs. file_name lf \<and> lookup A (pd @ [lf]) = lookup F (pd @ [lf])"
    using license_files_plain [OF f1 i [folded pd_def] pl [folded pd_def]]
      same_package_dir_entry [OF i [folded pd_def]]
    by (auto simp: lfs_def)
  have s2: "in_step A F (fs (fst st2)) (fs (fst su2)) \<and> snd su2 = snd st2"
    unfolding st2_def su2_def
    using s1 names d1 f2 by (intro in_step_copyLicenses) (simp_all add: st2_def)
  obtain ru where "processDependency pf projectRoot packageName outDirPath verb wu = Inr ru"
    and "fs (fst ru) = fs (fst su2)" "snd ru = snd su2"
    using fs_processDependency [OF mu [unfolded od_def] refl refl, where projectRoot = projectRoot and verb = verb] lu
    by (auto simp: su2_def su1_def pd_def od_def)
  then show ?thesis using s2 rt by auto
qed

lemma in_step_processDependency_fails:
  assumes s: "in_step A (fs wt) (fs wt) (fs wu)"
    and r: "processDependency pf projectRoot packageName outDirPath verb wt = Inl e"
  shows "\<exists>e'. processDependency pf projectRoot packageName outDirPath verb wu = Inl e'"
  using in_step_mkdir_fails [OF s] r by (simp add: processDependency_Inl)

subsection \<open>Two runs in sequence: the whole run\<close>

lemma in_step_packageLoop:
  assumes "in_step A F (fs (fst st)) (fs (fst su))" and "snd su = snd st"
    and "F = fs (fst (snd (packageLoop pf projectRoot outDirPath verb names st)))"
    and "\<forall>n\<in>set names. same_package_dir A F (join projectRoot [''node_modules'', n])
                         \<and> plain_entries A (join projectRoot [''node_modules'', n])"
  shows "(fst (packageLoop pf projectRoot outDirPath verb names su) = None
            \<longleftrightarrow> fst (packageLoop pf projectRoot outDirPath verb names st) = None)
       \<and> snd (snd (packageLoop pf projectRoot outDirPath verb names su))
           = snd (snd (packageLoop pf projectRoot outDirPath verb names st))
       \<and> (\<forall>p. lookup (fs (fst (snd (packageLoop pf projectRoot outDirPath verb names su)))) p
                = lookup F p)"
  using assms
proof (induction names arbitrary: st su)
  case Nil
  then show ?case by (auto dest: in_step_end)
next
  case (Cons n names)
  show ?case
  proof (cases "processDependency pf projectRoot n outDirPath verb (fst st)")
    case (Inl e)
    then have F: "F = fs (fst st)" using Cons.prems(3) by simp
    obtain e' where "processDependency pf projectRoot n outDirPath verb (fst su) = Inl e'"
      using in_step_processDependency_fails [OF _ Inl] Cons.prems(1) F by auto
    then show ?thesis
      using Inl Cons.prems(1,2) F by (auto dest: in_step_end)
  next
    case (Inr rt)
    let ?c = "if snd rt > 0
             then (snd st)\<lparr>copiedCount := copiedCount (snd st) + 1\<rparr>
             else (snd st)\<lparr>skippedCount := skippedCount (snd st) + 1\<rparr>"
    have F: "F = fs (fst (snd (packageLoop pf projectRoot outDirPath verb names (fst rt, ?c))))"
      using Cons.prems(3) Inr by simp
    have f: "persists (fs (fst rt)) F"
      unfolding F using packageLoop_persists [of "(fst rt, ?c)"] by simp
    obtain ru where ru: "processDependency pf projectRoot n outDirPath verb (fst su) = Inr ru"
      and s: "in_step A F (fs (fst rt)) (fs (fst ru))" and c: "snd ru = snd rt"
      using in_step_processDependency [OF Cons.prems(1) Inr f] Cons.prems(4) by auto
    have Lt: "packageLoop pf projectRoot outDirPath verb (n # names) st
        = packageLoop pf projectRoot outDirPath verb names (fst rt, ?c)"
      using Inr by simp
    have Lu: "packageLoop pf projectRoot outDirPath verb (n # names) su
        = packageLoop pf projectRoot outDirPath verb names (fst ru, ?c)"
      using ru c Cons.prems(2) by simp
    have "(fst (packageLoop pf projectRoot outDirPath verb names (fst ru, ?c)) = None
            \<longleftrightarrow> fst (packageLoop pf projectRoot outDirPath verb names (fst rt, ?c)) = None)
       \<and> snd (snd (packageLoop pf projectRoot outDirPath verb names (fst ru, ?c)))
           = snd (snd (packageLoop pf projectRoot outDirPath verb names (fst rt, ?c)))
       \<and> (\<forall>p. lookup (fs (fst (snd (packageLoop pf projectRoot outDirPath verb names (fst ru, ?c))))) p
                = lookup F p)"
      using s F Cons.prems(4) by (intro Cons.IH) simp_all
    then show ?thesis
      unfolding Lt Lu .
  qed
qed

lemma readManifest_same:
  assumes "lookup a (join projectRoot [''package.json'']) = lookup b (join projectRoot [''package.json''])"
  shows "readManifest JSON_parse projectRoot a = readManifest JSON_parse projectRoot b"
  using assms by (simp add: readManifest_def readFile_def Let_def)

lemma fs_main:
  "fs (snd (main pf JSON_parse projectRoot options w))
     = fs (snd (extractNpmReadmes pf JSON_parse projectRoot options w))"
  by (cases "extractNpmReadmes pf JSON_parse projectRoot options w")
    (auto simp: main_def console_error_def split: option.splits)

lemma fst_main:
  "fst (main pf JSON_parse projectRoot options w)
     = (if fst (extractNpmReadmes pf JSON_parse projectRoot options w) = None then 0 else 1)"
  by (cases "extractNpmReadmes pf JSON_parse projectRoot options w")
    (auto simp: main_def split: option.splits)

lemma second_extract:
  assumes i: "same_inputs JSON_parse projectRoot (fs w)
                (fs (snd (extractNpmReadmes pf JSON_parse projectRoot options w)))"
    and w': "fs w' = fs (snd (extractNpmReadmes pf JSON_parse projectRoot options w))"
  shows "(fst (extractNpmReadmes pf JSON_parse projectRoot options w') = None
            \<longleftrightarrow> fst (extractNpmReadmes pf JSON_parse projectRoot options w) = None)
       \<and> (\<forall>p. lookup (fs (snd (extractNpmReadmes pf JSON_parse projectRoot options w'))) p
                = lookup (fs w') p)"
proof -
  define F where "F = fs (snd (extractNpmReadmes pf JSON_parse projectRoot options w))"
  have man: "readManifest JSON_parse projectRoot (fs w') = readManifest JSON_parse projectRoot (fs w)"
    using i w' by (intro readManifest_same) (simp add: same_inputs_def)
  show ?thesis
  proof (cases "readManifest JSON_parse projectRoot (fs w)")
    case (Inl e)
    then show ?thesis using man by (simp add: extractNpmReadmes_def)
  next
    case (Inr deps)
    let ?out = "join projectRoot [outdir options]"
    show ?thesis
    proof (cases "Object_keys deps = []")
      case True
      then show ?thesis using man Inr by (simp add: extractNpmReadmes_def console_log_def)
    next
      case ne: False
      show ?thesis
      proof (cases "mkdir pf (fs w) ?out")
        case (Inl e)
        then have "F = fs w" using Inr ne by (simp add: F_def extractNpmReadmes_def Let_def)
        then have "mkdir pf (fs w') ?out = Inl e" using Inl w' by (simp add: F_def)
        then show ?thesis
          using Inl man Inr ne by (simp add: extractNpmReadmes_def Let_def)
      next
        case m: (Inr t1)
        let ?c0 = "\<lparr>copiedCount = 0, skippedCount = 0\<rparr>"
        let ?lt = "packageLoop pf projectRoot ?out (verbose options) (Object_keys deps)
                     (w\<lparr>fs := t1\<rparr>, ?c0)"
        have ex: "extractNpmReadmes pf JSON_parse projectRoot options w =
            (case ?lt of (Some e, st) \<Rightarrow> (Some e, fst st)
             | (None, st) \<Rightarrow> (None, console_log (Processed (copiedCount (snd st))
                   (skippedCount (snd st)) ?out) (fst st)))"
          using Inr ne m by (simp add: extractNpmReadmes_def Let_def)
        have F: "F = fs (fst (snd ?lt))"
          unfolding F_def ex by (cases ?lt) (auto simp: console_log_def split: option.splits)
        have f: "persists t1 F"
          unfolding F using packageLoop_persists [of "(w\<lparr>fs := t1\<rparr>, ?c0)"] by simp
        have "in_step (fs w) F (fs w) (fs w')"
          using w' by (simp add: F_def in_step_start)
        then obtain u1 where mu: "mkdir pf (fs w') ?out = Inr u1" and s: "in_step (fs w) F t1 u1"
          using in_step_mkdir [OF _ m f] by blast
        let ?lu = "packageLoop pf projectRoot ?out (verbose options) (Object_keys deps)
                     (w'\<lparr>fs := u1\<rparr>, ?c0)"
        have pk: "\<forall>n\<in>set (Object_keys deps).
            same_package_dir (fs w) F (join projectRoot [''node_modules'', n])
            \<and> plain_entries (fs w) (join projectRoot [''node_modules'', n])"
          using i Inr by (simp add: same_inputs_def F_def list_all_iff)
        have l: "(fst ?lu = None \<longleftrightarrow> fst ?lt = None)
            \<and> snd (snd ?lu) = snd (snd ?lt)
            \<and> (\<forall>p. lookup (fs (fst (snd ?lu))) p = lookup F p)"
          using s F pk by (intro in_step_packageLoop) simp_all
        have ex': "extractNpmReadmes pf JSON_parse projectRoot options w' =
            (case ?lu of (Some e, st) \<Rightarrow> (Some e, fst st)
             | (None, st) \<Rightarrow> (None, console_log (Processed (copiedCount (snd st))
                   (skippedCount (snd st)) ?out) (fst st)))"
          using Inr ne mu man by (simp add: extractNpmReadmes_def Let_def)
        have 1: "fst (extractNpmReadmes pf JSON_parse projectRoot options w) = fst ?lt"
          unfolding ex by (cases ?lt) (auto split: option.splits)
        have 2: "fst (extractNpmReadmes pf JSON_parse projectRoot options w') = fst ?lu"
          unfolding ex' by (cases ?lu) (auto split: option.splits)
        have 3: "fs (snd (extractNpmReadmes pf JSON_parse projectRoot options w')) = fs (fst (snd ?lu))"
          unfolding ex' by (cases ?lu) (auto simp: console_log_def split: option.splits)
        show ?thesis
          using l unfolding 1 2 3 w' F_def [symmetric] by simp
      qed
    qed
  qed
qed


subsection \<open>Running twice\<close>

text \<open>
  Claim C9, amended. Let a run leave the manifest and the package directory of every name of
  the merged set as it found them: the directory \<^verbatim>\<open>join(projectRoot, "node_modules", name)\<close>
  itself, its listing and each of its entries (whose names are file names). Then a second run
  with the same options, started from the file system the first run left, ends with the
  same exit code and leaves every path as the first run left it.
\<close>

theorem second_run_changes_nothing:
  assumes "same_inputs JSON_parse projectRoot (fs w)
             (fs (snd (main pf JSON_parse projectRoot options w)))"
    and "fs w' = fs (snd (main pf JSON_parse projectRoot options w))"
  shows "fst (main pf JSON_parse projectRoot options w')
           = fst (main pf JSON_parse projectRoot options w)
       \<and> (\<forall>p. lookup (fs (snd (main pf JSON_parse projectRoot options w'))) p
                = lookup (fs (snd (main pf JSON_parse projectRoot options w))) p)"
  using second_extract [of JSON_parse projectRoot w pf options w'] assms
  by (simp add: fs_main fst_main)

theorem second_run_changes_nothing_witness:
  "fst (main linux (\<lambda>s. Some manifest_leftpad) [''proj''] defaults
          (snd (main linux (\<lambda>s. Some manifest_leftpad) [''proj''] defaults
                  \<lparr>fs = fs_leftpad, console = []\<rparr>))) = 0
   \<and> lookup (fs (snd (main linux (\<lambda>s. Some manifest_leftpad) [''proj''] defaults
          (snd (main linux (\<lambda>s. Some manifest_leftpad) [''proj''] defaults
                  \<lparr>fs = fs_leftpad, console = []\<rparr>)))))
       [''proj'', ''docs-deps'', ''left-pad'', ''README.md''] = Some (File [104, 105])"
proof -
  let ?w = "\<lparr>fs = fs_leftpad, console = []\<rparr>"
  let ?w1 = "snd (main linux (\<lambda>s. Some manifest_leftpad) [''proj''] defaults ?w)"
  have h: "same_inputs (\<lambda>s. Some manifest_leftpad) [''proj''] (fs ?w) (fs ?w1)"
    unfolding run_leftpad
    by (simp add: same_inputs_def same_package_dir_def plain_entries_def file_name_def
        run_defs fs_leftpad_def manifest_leftpad_def)
  have 1: "fst (main linux (\<lambda>s. Some manifest_leftpad) [''proj''] defaults ?w) = 0"
    and 2: "lookup (fs ?w1) [''proj'', ''docs-deps'', ''left-pad'', ''README.md'']
              = Some (File [104, 105])"
    unfolding run_leftpad by (simp_all add: lookup_def fs_leftpad_def)
  show ?thesis
    using second_run_changes_nothing [OF h refl] 1 2
    by simp
qed

text \<open>
  The claim as first stated, with the manifest, the content of \<^verbatim>\<open>node_modules\<close> and the options
  unchanged, fails where a name climbs out of \<^verbatim>\<open>node_modules\<close> into the output tree. With the
  output directory \<^verbatim>\<open>o1/o2\<close>, the name \<^verbatim>\<open>../o1/o2/x\<close> has the package directory \<^verbatim>\<open>/proj/o1/o2/x\<close>,
  which is the output subdirectory of \<^verbatim>\<open>x\<close>. The first run leaves \<^verbatim>\<open>node_modules\<close> and the manifest
  untouched and fills that directory; the second run then finds a \<^verbatim>\<open>README.md\<close> there and
  writes a file that the first run did not write.
\<close>

theorem second_run_differs_for_climbing_name:
  "fs (snd (main linux (\<lambda>s. Some manifest_climb) [''proj''] nested \<lparr>fs = fs_climb, console = []\<rparr>))
     = fs_climb @
         [([''proj'', ''o1''], Dir),
          ([''proj'', ''o1'', ''o2''], Dir),
          ([''proj'', ''o1'', ''o1''], Dir),
          ([''proj'', ''o1'', ''o1'', ''o2''], Dir),
          ([''proj'', ''o1'', ''o1'', ''o2'', ''x''], Dir),
          ([''proj'', ''o1'', ''o2'', ''x''], Dir),
          ([''proj'', ''o1'', ''o2'', ''x'', ''README.md''], File [104, 105])]
   \<and> lookup (fs (snd (main linux (\<lambda>s. Some manifest_climb) [''proj''] nested
                        \<lparr>fs = fs_climb, console = []\<rparr>)))
       [''proj'', ''o1'', ''o1'', ''o2'', ''x'', ''README.md''] = None
   \<and> lookup (fs (snd (main linux (\<lambda>s. Some manifest_climb) [''proj''] nested
         (snd (main linux (\<lambda>s. Some manifest_climb) [''proj''] nested
                 \<lparr>fs = fs_climb, console = []\<rparr>)))))
       [''proj'', ''o1'', ''o1'', ''o2'', ''x'', ''README.md''] = Some (File [104, 105])"
  unfolding run_climb
  by (simp add: run_defs fs_climb_def manifest_climb_def nested_def)

subsection \<open>The exit code\<close>

text \<open>
  Claim C3, amended. The exit code is 0 or 1. It is 1 exactly when reading, parsing or merging
  the manifest throws, or when there is at least one package name and a directory creation
  throws: the \<^verbatim>\<open>mkdir\<close> of the output root, or the \<^verbatim>\<open>mkdir\<close> of the output subdirectory in one of
  the calls of \<^verbatim>\<open>processDependency\<close> that the loop makes. Whatever makes \<^verbatim>\<open>mkdir\<close> throw counts:
  a regular file in the way, a name that is no file name for the operating system, a missing
  permission. A failed read or write of a README or license file and a missing package
  directory have no part in it.
\<close>

theorem exit_code_characterisation:
  "fst (main pf JSON_parse projectRoot options w) =
     (if (case readManifest JSON_parse projectRoot (fs w) of
            Inl e \<Rightarrow> True
          | Inr deps \<Rightarrow>
              Object_keys deps \<noteq> []
              \<and> (case mkdir pf (fs w) (join projectRoot [outdir options]) of
                    Inl e \<Rightarrow> True
                  | Inr fs1 \<Rightarrow>
                      list_ex (mkdir_throws pf (join projectRoot [outdir options]))
                        (calls pf projectRoot (join projectRoot [outdir options])
                           (verbose options) (Object_keys deps) (w\<lparr>fs := fs1\<rparr>))))
      then 1 else 0)"
proof (cases "readManifest JSON_parse projectRoot (fs w)")
  case (Inl e)
  then show ?thesis by (simp add: main_def extractNpmReadmes_def)
next
  case (Inr deps)
  let ?out = "join projectRoot [outdir options]"
  show ?thesis
  proof (cases "Object_keys deps = []")
    case True
    then show ?thesis using Inr by (simp add: main_def extractNpmReadmes_def)
  next
    case ne: False
    show ?thesis
    proof (cases "mkdir pf (fs w) ?out")
      case (Inl e)
      then show ?thesis
        using Inr ne by (simp add: main_def extractNpmReadmes_def Let_def)
    next
      case m: (Inr fs1)
      let ?st0 = "(w\<lparr>fs := fs1\<rparr>, \<lparr>copiedCount = 0, skippedCount = 0\<rparr>)"
      let ?cs = "calls pf projectRoot ?out (verbose options) (Object_keys deps) (w\<lparr>fs := fs1\<rparr>)"
      obtain r st where l:
        "packageLoop pf projectRoot ?out (verbose options) (Object_keys deps) ?st0 = (r, st)"
        by (cases "packageLoop pf projectRoot ?out (verbose options) (Object_keys deps) ?st0")
      have "r = None \<longleftrightarrow> \<not> list_ex (mkdir_throws pf ?out) ?cs"
        using packageLoop_throws [of pf projectRoot ?out "verbose options" "Object_keys deps" ?st0] l
        by (simp add: filesCopied_None list_all_iff list_ex_iff)
      then show ?thesis
        using Inr ne m l by (cases r) (simp_all add: main_def extractNpmReadmes_def Let_def)
    qed
  qed
qed

theorem exit_code_characterisation_witness:
  "main linux (\<lambda>s. Some manifest_nul) [''proj''] defaults \<lparr>fs = fs_bare, console = []\<rparr>
     = (1, \<lparr>fs = fs_bare @ [([''proj'', ''docs-deps''], Dir)],
            console = [Stderr (ErrorExtracting EINVAL)]\<rparr>)
   \<and> fst (main linux (\<lambda>s. Some manifest_nul) [''proj''] defaults
            \<lparr>fs = fs_bare, console = []\<rparr>) = 1
   \<and> main readonly (\<lambda>s. Some manifest_foo) [''proj''] defaults \<lparr>fs = fs_bare, console = []\<rparr>
       = (1, \<lparr>fs = fs_bare, console = [Stderr (ErrorExtracting EACCES)]\<rparr>)
   \<and> fst (main readonly (\<lambda>s. Some manifest_foo) [''proj''] defaults
            \<lparr>fs = fs_bare, console = []\<rparr>) = 1
   \<and> fst (main linux (\<lambda>s. Some manifest_foo) [''proj''] defaults
            \<lparr>fs = fs_bare, console = []\<rparr>) = 0"
proof -
  have a: "fst (main linux (\<lambda>s. Some manifest_nul) [''proj''] defaults
                  \<lparr>fs = fs_bare, console = []\<rparr>) = 1"
    using exit_code_characterisation [where pf = linux and JSON_parse = "\<lambda>s. Some manifest_nul"
        and projectRoot = "[''proj'']" and options = defaults
        and w = "\<lparr>fs = fs_bare, console = []\<rparr>"]
    by (simp add: run_defs fs_bare_def manifest_nul_def)
  have b: "fst (main readonly (\<lambda>s. Some manifest_foo) [''proj''] defaults
                  \<lparr>fs = fs_bare, console = []\<rparr>) = 1"
    using exit_code_characterisation [where pf = readonly and JSON_parse = "\<lambda>s. Some manifest_foo"
        and projectRoot = "[''proj'']" and options = defaults
        and w = "\<lparr>fs = fs_bare, console = []\<rparr>"]
    by (simp add: run_defs fs_bare_def manifest_foo_def)
  have c: "fst (main linux (\<lambda>s. Some manifest_foo) [''proj''] defaults
                  \<lparr>fs = fs_bare, console = []\<rparr>) = 0"
    using exit_code_characterisation [where pf = linux and JSON_parse = "\<lambda>s. Some manifest_foo"
        and projectRoot = "[''proj'']" and options = defaults
        and w = "\<lparr>fs = fs_bare, console = []\<rparr>"]
    by (simp add: run_defs fs_bare_def manifest_foo_def)
  have n: "main linux (\<lambda>s. Some manifest_nul) [''proj''] defaults \<lparr>fs = fs_bare, console = []\<rparr>
      = (1, \<lparr>fs = fs_bare @ [([''proj'', ''docs-deps''], Dir)],
             console = [Stderr (ErrorExtracting EINVAL)]\<rparr>)"
    by (simp add: run_defs fs_bare_def manifest_nul_def)
  have r: "main readonly (\<lambda>s. Some manifest_foo) [''proj''] defaults \<lparr>fs = fs_bare, console = []\<rparr>
      = (1, \<lparr>fs = fs_bare, console = [Stderr (ErrorExtracting EACCES)]\<rparr>)"
    by (simp add: run_defs fs_bare_def manifest_foo_def)
  show ?thesis using a b c n r by (simp only: simp_thms)
qed

text \<open>
  The claim as first stated fails: here the manifest is read and parsed, and the exit code is 1,
  because \<^verbatim>\<open>docs-deps/foo\<close> is a regular file and \<^verbatim>\<open>mkdir\<close> in \<^verbatim>\<open>processDependency\<close> throws.
\<close>

theorem exit_code_one_with_good_manifest:
  "readManifest (\<lambda>s. Some manifest_foo) [''proj''] fs_blocked = Inr [(''foo'', JString ''1.0.0'')]
   \<and> fst (main linux (\<lambda>s. Some manifest_foo) [''proj''] defaults
            \<lparr>fs = fs_blocked, console = []\<rparr>) = 1"
  by (simp add: manifest_foo_read run_blocked)

subsection \<open>The packages a run processes\<close>




subsection \<open>The output subdirectory\<close>

lemma calls_member:
  assumes "map fst (calls pf projectRoot outDirPath verb names w) = names" and "n \<in> set names"
  obtains wn where "(n, wn) \<in> set (calls pf projectRoot outDirPath verb names w)"
proof -
  have "n \<in> fst ` set (calls pf projectRoot outDirPath verb names w)"
    using assms by (metis set_map)
  then show ?thesis using that by auto
qed

text \<open>
  Claim C6, amended. In a run that does not reject, which is a run in which no \<^verbatim>\<open>mkdir\<close> throws,
  every name of the merged set has its output subdirectory when the run ends, whatever the
  number of files copied and whether or not the package directory exists. The subdirectory is
  made first: the loop calls \<^verbatim>\<open>processDependency\<close> for the name, the \<^verbatim>\<open>mkdir\<close> of that call
  succeeds, and the README step and the license step of the call start from the state that
  \<^verbatim>\<open>mkdir\<close> left, in which the subdirectory is a directory.
\<close>

theorem output_subdirectory_created_first:
  assumes rm: "readManifest JSON_parse projectRoot (fs w) = Inr deps"
    and run: "extractNpmReadmes pf JSON_parse projectRoot options w = (None, w')"
    and n: "n \<in> set (Object_keys deps)"
  shows "is_dir (fs w') (join (join projectRoot [outdir options]) [n])
       \<and> (\<exists>fs0 wn fs1.
             mkdir pf (fs w) (join projectRoot [outdir options]) = Inr fs0
           \<and> (n, wn) \<in> set (calls pf projectRoot (join projectRoot [outdir options])
                               (verbose options) (Object_keys deps) (w\<lparr>fs := fs0\<rparr>))
           \<and> mkdir pf (fs wn) (join (join projectRoot [outdir options]) [n]) = Inr fs1
           \<and> is_dir fs1 (join (join projectRoot [outdir options]) [n])
           \<and> processDependency pf projectRoot n (join projectRoot [outdir options])
                 (verbose options) wn
               = Inr (let packageDir = join projectRoot [''node_modules'', n];
                          outputDir = join (join projectRoot [outdir options]) [n];
                          st1 = copyReadme n packageDir outputDir (verbose options)
                                  (wn\<lparr>fs := fs1\<rparr>, 0);
                          st2 = copyLicenses n packageDir outputDir (verbose options)
                                  (getLicenseFiles pf (fs (fst st1)) packageDir) st1
                      in (if snd st2 = 0 \<and> verbose options
                          then console_log (NoFilesFound n) (fst st2) else fst st2, snd st2)))"
proof -
  let ?out = "join projectRoot [outdir options]"
  have ne: "Object_keys deps \<noteq> []" using n by auto
  obtain fs0 where m: "mkdir pf (fs w) ?out = Inr fs0"
    using run rm ne by (cases "mkdir pf (fs w) ?out") (simp_all add: extractNpmReadmes_def Let_def)
  let ?st0 = "(w\<lparr>fs := fs0\<rparr>, \<lparr>copiedCount = 0, skippedCount = 0\<rparr>)"
  let ?cs = "calls pf projectRoot ?out (verbose options) (Object_keys deps) (w\<lparr>fs := fs0\<rparr>)"
  obtain r st where l:
    "packageLoop pf projectRoot ?out (verbose options) (Object_keys deps) ?st0 = (r, st)"
    by (cases "packageLoop pf projectRoot ?out (verbose options) (Object_keys deps) ?st0")
  have r: "r = None"
    using run rm ne m l by (cases r) (simp_all add: extractNpmReadmes_def Let_def)
  have w': "fs w' = fs (fst st)"
    using run rm ne m l r by (auto simp: extractNpmReadmes_def Let_def console_log_def)
  have d: "is_dir (fs w') (join ?out [n])"
    unfolding w' using l [unfolded r] n by (rule packageLoop_None)
  have all: "list_all (\<lambda>x. filesCopied pf projectRoot ?out (verbose options) x \<noteq> None) ?cs"
    using packageLoop_throws [of pf projectRoot ?out "verbose options" "Object_keys deps" ?st0]
      l r by simp
  then have "map fst ?cs = Object_keys deps" by (rule calls_complete)
  then obtain wn where wn: "(n, wn) \<in> set ?cs" using n by (rule calls_member)
  have "\<not> mkdir_throws pf ?out (n, wn)"
    using all wn by (auto simp: list_all_iff filesCopied_None)
  then obtain fs1 where m1: "mkdir pf (fs wn) (join ?out [n]) = Inr fs1"
    by (cases "mkdir pf (fs wn) (join ?out [n])") (simp_all add: mkdir_throws_def)
  have d1: "is_dir fs1 (join ?out [n])"
    using m1 by (rule mkdir_Inr_is_dir) simp
  have p: "processDependency pf projectRoot n ?out (verbose options) wn
      = Inr (let packageDir = join projectRoot [''node_modules'', n];
                 outputDir = join ?out [n];
                 st1 = copyReadme n packageDir outputDir (verbose options) (wn\<lparr>fs := fs1\<rparr>, 0);
                 st2 = copyLicenses n packageDir outputDir (verbose options)
                         (getLicenseFiles pf (fs (fst st1)) packageDir) st1
             in (if snd st2 = 0 \<and> verbose options
                 then console_log (NoFilesFound n) (fst st2) else fst st2, snd st2))"
    unfolding Let_def by (rule processDependency_Inr_eq [OF m1 refl refl])
  show ?thesis using d m wn m1 d1 p by blast
qed

theorem output_subdirectory_created_first_witness:
  "is_dir (fs \<lparr>fs = fs_bare @ [([''proj'', ''docs-deps''], Dir),
                                ([''proj'', ''docs-deps'', ''foo''], Dir)],
                console = [Stdout (Processed 0 1 [''proj'', ''docs-deps''])]\<rparr>)
      (join (join [''proj''] [outdir defaults]) [''foo''])
   \<and> extractNpmReadmes linux (\<lambda>s. Some manifest_foo) [''proj''] defaults
        \<lparr>fs = fs_bare, console = []\<rparr>
      = (None, \<lparr>fs = fs_bare @ [([''proj'', ''docs-deps''], Dir),
                                ([''proj'', ''docs-deps'', ''foo''], Dir)],
                console = [Stdout (Processed 0 1 [''proj'', ''docs-deps''])]\<rparr>)
   \<and> lookup fs_bare [''proj'', ''node_modules'', ''foo''] = None"
proof -
  have run: "extractNpmReadmes linux (\<lambda>s. Some manifest_foo) [''proj''] defaults
        \<lparr>fs = fs_bare, console = []\<rparr>
      = (None, \<lparr>fs = fs_bare @ [([''proj'', ''docs-deps''], Dir),
                                ([''proj'', ''docs-deps'', ''foo''], Dir)],
                console = [Stdout (Processed 0 1 [''proj'', ''docs-deps''])]\<rparr>)"
    by (simp add: run_defs fs_bare_def manifest_foo_def)
  have rm: "readManifest (\<lambda>s. Some manifest_foo) [''proj''] (fs \<lparr>fs = fs_bare, console = []\<rparr>)
      = Inr [(''foo'', JString ''1.0.0'')]"
    by (simp add: run_defs fs_bare_def manifest_foo_def)
  have n: "''foo'' \<in> set (Object_keys [(''foo'', JString ''1.0.0'')])"
    by (simp add: run_defs)
  have l: "lookup fs_bare [''proj'', ''node_modules'', ''foo''] = None"
    by (simp add: lookup_def fs_bare_def)
  show ?thesis
    using output_subdirectory_created_first [OF rm run n] run l by blast
qed

text \<open>
  The claim as first stated fails: \<^verbatim>\<open>foo\<close> is in the merged set, and after the run
  \<^verbatim>\<open>docs-deps/foo\<close> is not a directory, because a regular file of that name was in the way.
\<close>

theorem output_subdirectory_not_created:
  "set (Object_keys [(''foo'', JString ''1.0.0'')]) = {''foo''}
   \<and> readManifest (\<lambda>s. Some manifest_foo) [''proj''] fs_blocked = Inr [(''foo'', JString ''1.0.0'')]
   \<and> \<not> is_dir (fs (snd (main linux (\<lambda>s. Some manifest_foo) [''proj''] defaults
                          \<lparr>fs = fs_blocked, console = []\<rparr>)))
          (join (join [''proj''] [outdir defaults]) [''foo''])"
  by (simp add: manifest_foo_read run_blocked) (simp add: run_defs fs_blocked_def)

subsection \<open>Failures on single files\<close>

lemma copyText_Inr:
  assumes "copyText a src dst = Inr b"
  obtains bytes where "lookup a src = Some (File bytes)"
    and "\<And>q. lookup b q = (if q = dst then Some (File (utf8_encode (utf8_decode bytes)))
                             else lookup a q)"
    and "\<not> is_dir a dst" and "is_dir a (butlast dst)"
proof -
  obtain c where r: "readFile a src = Inr c" and w: "writeFile a dst c = Inr b"
    using assms by (auto simp: copyText_def split: sum.splits)
  obtain bytes where l: "lookup a src = Some (File bytes)" and c: "c = utf8_decode bytes"
    using r by (auto simp: readFile_def split: option.splits node.splits)
  show ?thesis
    using l writeFile_Inr(4) [OF w] writeFile_Inr(2,3) [OF w] unfolding c by (rule that)
qed

lemma copyText_succeeds:
  assumes "lookup a src = Some (File bytes)" and "\<not> is_dir a dst" and "is_dir a (butlast dst)"
  shows "\<exists>b. copyText a src dst = Inr b"
  using assms writeFile_Inr_iff [of a dst "utf8_decode bytes"]
  by (simp add: copyText_def readFile_def)

lemma copyText_fails:
  assumes "\<not> is_file a src \<or> is_dir a dst"
  shows "\<exists>e. copyText a src dst = Inl e"
proof (cases "copyText a src dst")
  case (Inl e)
  then show ?thesis by blast
next
  case (Inr b)
  then show ?thesis using assms by (elim copyText_Inr) (simp add: is_file_iff)
qed

text \<open>No copy makes a directory, and a copy changes the target only.\<close>

lemma copyText_is_dir: "copyText a src dst = Inr b \<Longrightarrow> is_dir b q = is_dir a q"
  by (elim copyText_Inr) (simp add: is_dir_def)

lemma copyReadme_is_dir:
  "is_dir (fs (fst (copyReadme packageName packageDir outputDir verb st))) q = is_dir (fs (fst st)) q"
  by (simp add: fs_copyReadme copyText_is_dir split: sum.splits)

lemma copyLicense_is_dir:
  "is_dir (fs (fst (copyLicense packageName packageDir outputDir verb lf st))) q
     = is_dir (fs (fst st)) q"
  by (simp add: fs_copyLicense copyText_is_dir split: sum.splits)

lemma copyLicense_frame:
  "q \<noteq> join outputDir [lf] \<Longrightarrow>
     lookup (fs (fst (copyLicense packageName packageDir outputDir verb lf st))) q
       = lookup (fs (fst st)) q"
  by (auto simp: fs_copyLicense split: sum.splits elim: copyText_Inr)

lemma copyLicenses_frame:
  "q \<notin> (\<lambda>x. join outputDir [x]) ` set lfs \<Longrightarrow>
     lookup (fs (fst (copyLicenses packageName packageDir outputDir verb lfs st))) q
       = lookup (fs (fst st)) q"
  by (induction lfs arbitrary: st) (simp_all add: copyLicense_frame)

lemma copyLicense_copies:
  assumes "lookup (fs (fst st)) (join packageDir [lf]) = Some (File bytes)"
    and "\<not> is_dir (fs (fst st)) (join outputDir [lf])"
    and "is_dir (fs (fst st)) (butlast (join outputDir [lf]))"
  shows "lookup (fs (fst (copyLicense packageName packageDir outputDir verb lf st)))
           (join outputDir [lf]) = Some (File (utf8_encode (utf8_decode bytes)))"
proof -
  obtain b where b: "copyText (fs (fst st)) (join packageDir [lf]) (join outputDir [lf]) = Inr b"
    using copyText_succeeds [OF assms] by blast
  then have "lookup b (join outputDir [lf]) = Some (File (utf8_encode (utf8_decode bytes)))"
    using assms(1) by (elim copyText_Inr) simp
  then show ?thesis using b by (simp add: fs_copyLicense)
qed

lemma copyLicense_logs:
  assumes "\<not> is_file (fs (fst st)) (join packageDir [lf]) \<or> is_dir (fs (fst st)) (join outputDir [lf])"
  shows "\<exists>e. Stderr (FailedLicense lf packageName e)
            \<in> set (console (fst (copyLicense packageName packageDir outputDir verb lf st)))"
proof -
  obtain e where "copyText (fs (fst st)) (join packageDir [lf]) (join outputDir [lf]) = Inl e"
    using copyText_fails [OF assms] by blast
  then show ?thesis by (auto simp: copyLicense_def Let_def console_error_def)
qed

text \<open>
  The license loop, file by file: with targets that differ from each other and from the
  sources, what happens to one file depends on that file only.
\<close>

lemma copyLicenses_each:
  assumes "lf \<in> set lfs"
    and "distinct (map (\<lambda>x. join outputDir [x]) lfs)"
    and "\<forall>x\<in>set lfs. \<forall>y\<in>set lfs. join packageDir [x] \<noteq> join outputDir [y]"
    and "\<forall>x\<in>set lfs. is_dir (fs (fst st)) (butlast (join outputDir [x]))"
  shows "(\<forall>bytes. lookup (fs (fst st)) (join packageDir [lf]) = Some (File bytes)
              \<and> \<not> is_dir (fs (fst st)) (join outputDir [lf]) \<longrightarrow>
            lookup (fs (fst (copyLicenses packageName packageDir outputDir verb lfs st)))
              (join outputDir [lf]) = Some (File (utf8_encode (utf8_decode bytes))))
       \<and> (\<not> is_file (fs (fst st)) (join packageDir [lf])
             \<or> is_dir (fs (fst st)) (join outputDir [lf]) \<longrightarrow>
            (\<exists>e. Stderr (FailedLicense lf packageName e)
               \<in> set (console (fst (copyLicenses packageName packageDir outputDir verb lfs st)))))"
  using assms
proof (induction lfs arbitrary: st)
  case Nil
  then show ?case by simp
next
  case (Cons a lfs)
  let ?st1 = "copyLicense packageName packageDir outputDir verb a st"
  let ?st2 = "copyLicenses packageName packageDir outputDir verb lfs ?st1"
  show ?case
  proof (cases "lf = a")
    case True
    have out: "join outputDir [a] \<notin> (\<lambda>x. join outputDir [x]) ` set lfs"
      using Cons.prems(2) by auto
    have keep: "lookup (fs (fst ?st2)) (join outputDir [a]) = lookup (fs (fst ?st1)) (join outputDir [a])"
      using out by (rule copyLicenses_frame)
    have mono: "set (console (fst ?st1)) \<subseteq> set (console (fst ?st2))"
      by (rule console_mono_copyLicenses)
    have par: "is_dir (fs (fst st)) (butlast (join outputDir [a]))"
      using Cons.prems(4) by simp
    have 1: "lookup (fs (fst ?st2)) (join outputDir [a]) = Some (File (utf8_encode (utf8_decode bytes)))"
      if "lookup (fs (fst st)) (join packageDir [a]) = Some (File bytes)"
        and "\<not> is_dir (fs (fst st)) (join outputDir [a])" for bytes
      unfolding keep using that par by (rule copyLicense_copies)
    have 2: "\<exists>e. Stderr (FailedLicense a packageName e) \<in> set (console (fst ?st2))"
      if "\<not> is_file (fs (fst st)) (join packageDir [a]) \<or> is_dir (fs (fst st)) (join outputDir [a])"
      using copyLicense_logs [OF that, of packageName verb] mono by blast
    show ?thesis unfolding True using 1 2 by simp
  next
    case False
    then have lf: "lf \<in> set lfs" using Cons.prems(1) by simp
    have src: "join packageDir [lf] \<noteq> join outputDir [a]"
      using Cons.prems(3) lf by simp
    have s: "lookup (fs (fst ?st1)) (join packageDir [lf]) = lookup (fs (fst st)) (join packageDir [lf])"
      using src by (rule copyLicense_frame)
    have f: "is_file (fs (fst ?st1)) (join packageDir [lf]) = is_file (fs (fst st)) (join packageDir [lf])"
      by (simp add: is_file_iff s)
    have d: "is_dir (fs (fst ?st1)) q = is_dir (fs (fst st)) q" for q
      by (rule copyLicense_is_dir)
    have "(\<forall>bytes. lookup (fs (fst ?st1)) (join packageDir [lf]) = Some (File bytes)
              \<and> \<not> is_dir (fs (fst ?st1)) (join outputDir [lf]) \<longrightarrow>
            lookup (fs (fst ?st2)) (join outputDir [lf]) = Some (File (utf8_encode (utf8_decode bytes))))
       \<and> (\<not> is_file (fs (fst ?st1)) (join packageDir [lf])
             \<or> is_dir (fs (fst ?st1)) (join outputDir [lf]) \<longrightarrow>
            (\<exists>e. Stderr (FailedLicense lf packageName e) \<in> set (console (fst ?st2))))"
      using lf Cons.prems(2,3,4) by (intro Cons.IH) (simp_all add: d)
    then show ?thesis unfolding s f d by simp
  qed
qed

lemma distinct_getLicenseFiles: "distinct (getLicenseFiles pf a d)"
  by (simp add: getLicenseFiles_def glob_def readdir_def)

text \<open>
  Claim C7. Take a call of \<^verbatim>\<open>processDependency\<close> whose \<^verbatim>\<open>mkdir\<close> has succeeded; \<open>st1\<close> is the state
  after the README step and \<open>licenseFiles\<close> what the license search then finds.
  \<^item> The call returns, and the loop over the packages goes on with the next name, whatever
    happened to the README and to the license files.
  \<^item> When \<^verbatim>\<open>README.md\<close> exists and its copy throws, which it does when the source or the target
    is a directory, the failure is logged on the error stream.
  \<^item> Every matched license file is dealt with: it is a regular file of the output subdirectory
    afterwards, or its own failure is logged.
  \<^item> When the package directory is not the output subdirectory and the matched names are file
    names, the outcome for one license file depends on that file alone: a regular file whose
    target is no directory is copied, the target holding its content (decoded and encoded
    again) when the call returns; for any other, the failure is logged. A failed README and
    failures on other license files change nothing to this.
\<close>

theorem copy_failures_keep_going:
  assumes m: "mkdir pf (fs w) (join outDirPath [packageName]) = Inr fs1"
    and pd: "packageDir = join projectRoot [''node_modules'', packageName]"
    and od: "outputDir = join outDirPath [packageName]"
    and st1: "st1 = copyReadme packageName packageDir outputDir verb (w\<lparr>fs := fs1\<rparr>, 0)"
    and lfs: "licenseFiles = getLicenseFiles pf (fs (fst st1)) packageDir"
  shows "\<exists>w' k.
           processDependency pf projectRoot packageName outDirPath verb w = Inr (w', k)
         \<and> packageLoop pf projectRoot outDirPath verb (packageName # rest) (w, c)
             = packageLoop pf projectRoot outDirPath verb rest
                 (w', if k > 0 then c\<lparr>copiedCount := copiedCount c + 1\<rparr>
                      else c\<lparr>skippedCount := skippedCount c + 1\<rparr>)
         \<and> (\<forall>e. fileExists fs1 (join packageDir [''README.md''])
                  \<and> copyText fs1 (join packageDir [''README.md''])
                        (join outputDir [''README.md'']) = Inl e
                \<longrightarrow> Stderr (FailedReadme packageName e) \<in> set (console w'))
         \<and> (fileExists fs1 (join packageDir [''README.md''])
               \<and> (is_dir fs1 (join packageDir [''README.md''])
                    \<or> is_dir fs1 (join outputDir [''README.md'']))
             \<longrightarrow> (\<exists>e. Stderr (FailedReadme packageName e) \<in> set (console w')))
         \<and> (\<forall>lf\<in>set licenseFiles.
               is_file (fs w') (join outputDir [lf])
               \<or> (\<exists>e. Stderr (FailedLicense lf packageName e) \<in> set (console w')))
         \<and> (packageDir \<noteq> outputDir \<and> list_all file_name licenseFiles \<longrightarrow>
               (\<forall>lf\<in>set licenseFiles.
                  (\<forall>bytes. lookup (fs (fst st1)) (join packageDir [lf]) = Some (File bytes)
                       \<and> \<not> is_dir (fs (fst st1)) (join outputDir [lf])
                     \<longrightarrow> lookup (fs w') (join outputDir [lf])
                           = Some (File (utf8_encode (utf8_decode bytes))))
                \<and> (\<not> is_file (fs (fst st1)) (join packageDir [lf])
                       \<or> is_dir (fs (fst st1)) (join outputDir [lf])
                     \<longrightarrow> (\<exists>e. Stderr (FailedLicense lf packageName e) \<in> set (console w')))))"
proof -
  define st2 where "st2 = copyLicenses packageName packageDir outputDir verb licenseFiles st1"
  define w' where
    "w' = (if snd st2 = 0 \<and> verb then console_log (NoFilesFound packageName) (fst st2) else fst st2)"
  have r: "processDependency pf projectRoot packageName outDirPath verb w = Inr (w', snd st2)"
    unfolding w'_def st2_def lfs
    by (rule processDependency_Inr_eq [OF m st1 [unfolded pd od] refl, folded pd od])
  have f: "fs w' = fs (fst st2)" and c2: "set (console (fst st2)) \<subseteq> set (console w')"
    by (auto simp: w'_def console_log_def)
  have c1: "set (console (fst st1)) \<subseteq> set (console (fst st2))"
    unfolding st2_def by (rule console_mono_copyLicenses)
  have loop: "packageLoop pf projectRoot outDirPath verb (packageName # rest) (w, c)
      = packageLoop pf projectRoot outDirPath verb rest
          (w', if snd st2 > 0 then c\<lparr>copiedCount := copiedCount c + 1\<rparr>
               else c\<lparr>skippedCount := skippedCount c + 1\<rparr>)"
    using r by simp
  have readme: "Stderr (FailedReadme packageName e) \<in> set (console w')"
    if "fileExists fs1 (join packageDir [''README.md''])"
      and "copyText fs1 (join packageDir [''README.md'']) (join outputDir [''README.md'']) = Inl e"
    for e
  proof -
    have "st1 = (console_error (FailedReadme packageName e) (w\<lparr>fs := fs1\<rparr>), 0)"
      using that by (simp add: st1 copyReadme_def Let_def)
    then have "Stderr (FailedReadme packageName e) \<in> set (console (fst st1))"
      by (simp add: console_error_def)
    then show ?thesis using c1 c2 by blast
  qed
  have readme': "\<exists>e. Stderr (FailedReadme packageName e) \<in> set (console w')"
    if "fileExists fs1 (join packageDir [''README.md''])"
      and "is_dir fs1 (join packageDir [''README.md'']) \<or> is_dir fs1 (join outputDir [''README.md''])"
  proof -
    have "\<not> is_file fs1 (join packageDir [''README.md''])
        \<or> is_dir fs1 (join outputDir [''README.md''])"
      using that(2) not_file_and_dir by blast
    then obtain e where
      "copyText fs1 (join packageDir [''README.md'']) (join outputDir [''README.md'']) = Inl e"
      using copyText_fails by blast
    then show ?thesis using readme [OF that(1)] by blast
  qed
  have any: "is_file (fs w') (join outputDir [lf])
      \<or> (\<exists>e. Stderr (FailedLicense lf packageName e) \<in> set (console w'))"
    if "lf \<in> set licenseFiles" for lf
    using copyLicenses_outcome [OF that, of packageName packageDir outputDir verb st1] c2
    unfolding f st2_def by blast
  have each: "(\<forall>bytes. lookup (fs (fst st1)) (join packageDir [lf]) = Some (File bytes)
                   \<and> \<not> is_dir (fs (fst st1)) (join outputDir [lf])
                 \<longrightarrow> lookup (fs w') (join outputDir [lf])
                       = Some (File (utf8_encode (utf8_decode bytes))))
            \<and> (\<not> is_file (fs (fst st1)) (join packageDir [lf])
                   \<or> is_dir (fs (fst st1)) (join outputDir [lf])
                 \<longrightarrow> (\<exists>e. Stderr (FailedLicense lf packageName e) \<in> set (console w')))"
    if ne: "packageDir \<noteq> outputDir" and pl: "list_all file_name licenseFiles"
      and lf: "lf \<in> set licenseFiles" for lf
  proof -
    have j: "join d [x] = d @ [x]" if "x \<in> set licenseFiles" for x d
      using pl that by (simp add: list_all_iff join_file_name)
    have "inj_on (\<lambda>x. join outputDir [x]) (set licenseFiles)"
      by (rule inj_onI) (simp add: j)
    then have 1: "distinct (map (\<lambda>x. join outputDir [x]) licenseFiles)"
      unfolding lfs by (simp add: distinct_map distinct_getLicenseFiles)
    have 2: "\<forall>x\<in>set licenseFiles. \<forall>y\<in>set licenseFiles. join packageDir [x] \<noteq> join outputDir [y]"
      using ne by (simp add: j)
    have "is_dir fs1 outputDir"
      unfolding od using m by (rule mkdir_Inr_is_dir) simp
    then have "is_dir (fs (fst st1)) outputDir"
      unfolding st1 by (simp add: copyReadme_is_dir)
    then have 3: "\<forall>x\<in>set licenseFiles. is_dir (fs (fst st1)) (butlast (join outputDir [x]))"
      by (simp add: j)
    show ?thesis
      using copyLicenses_each [OF lf 1 2 3, of packageName verb] c2
      unfolding f st2_def by blast
  qed
  show ?thesis
    using r loop readme readme' any each by blast
qed

theorem copy_failures_keep_going_witness:
  "processDependency linux [''proj''] ''foo'' [''proj'', ''docs-deps''] False
     \<lparr>fs = fs_odd @ [([''proj'', ''docs-deps''], Dir)], console = []\<rparr>
   = Inr (\<lparr>fs = fs_odd @ [([''proj'', ''docs-deps''], Dir),
                           ([''proj'', ''docs-deps'', ''foo''], Dir),
                           ([''proj'', ''docs-deps'', ''foo'', ''license''], File [77])],
           console = [Stderr (FailedReadme ''foo'' EISDIR),
                      Stderr (FailedLicense ''licenses'' ''foo'' EISDIR)]\<rparr>, 1)
   \<and> getLicenseFiles linux
       (fs_odd @ [([''proj'', ''docs-deps''], Dir), ([''proj'', ''docs-deps'', ''foo''], Dir)])
       [''proj'', ''node_modules'', ''foo''] = [''license'', ''licenses'']
   \<and> (\<exists>w' k. processDependency linux [''proj''] ''foo'' [''proj'', ''docs-deps''] False
                 \<lparr>fs = fs_odd @ [([''proj'', ''docs-deps''], Dir)], console = []\<rparr> = Inr (w', k)
         \<and> Stderr (FailedReadme ''foo'' EISDIR) \<in> set (console w')
         \<and> lookup (fs w') [''proj'', ''docs-deps'', ''foo'', ''license''] = Some (File [77])
         \<and> (\<exists>e. Stderr (FailedLicense ''licenses'' ''foo'' e) \<in> set (console w')))"
proof -
  let ?w = "\<lparr>fs = fs_odd @ [([''proj'', ''docs-deps''], Dir)], console = []\<rparr>"
  let ?fs1 = "fs_odd @ [([''proj'', ''docs-deps''], Dir), ([''proj'', ''docs-deps'', ''foo''], Dir)]"
  let ?pd = "[''proj'', ''node_modules'', ''foo'']"
  let ?od = "[''proj'', ''docs-deps'', ''foo'']"
  let ?st1 = "(\<lparr>fs = ?fs1, console = [Stderr (FailedReadme ''foo'' EISDIR)]\<rparr>, 0::nat)"
  have m: "mkdir linux (fs ?w) (join [''proj'', ''docs-deps''] [''foo'']) = Inr ?fs1"
    by (simp add: run_defs fs_odd_def)
  have pd: "?pd = join [''proj''] [''node_modules'', ''foo'']"
    and od: "?od = join [''proj'', ''docs-deps''] [''foo'']"
    by (simp_all add: run_defs)
  have st1: "?st1 = copyReadme ''foo'' ?pd ?od False (?w\<lparr>fs := ?fs1\<rparr>, 0)"
    by (simp add: run_defs fs_odd_def)
  have lfs: "[''license'', ''licenses''] = getLicenseFiles linux (fs (fst ?st1)) ?pd"
    by (simp add: run_defs fs_odd_def)
  have r: "processDependency linux [''proj''] ''foo'' [''proj'', ''docs-deps''] False ?w
      = Inr (\<lparr>fs = fs_odd @ [([''proj'', ''docs-deps''], Dir),
                              ([''proj'', ''docs-deps'', ''foo''], Dir),
                              ([''proj'', ''docs-deps'', ''foo'', ''license''], File [77])],
              console = [Stderr (FailedReadme ''foo'' EISDIR),
                         Stderr (FailedLicense ''licenses'' ''foo'' EISDIR)]\<rparr>, 1)"
    by (simp add: run_defs fs_odd_def)
  have ex: "fileExists ?fs1 (join ?pd [''README.md''])"
    and fail: "copyText ?fs1 (join ?pd [''README.md'']) (join ?od [''README.md'']) = Inl EISDIR"
    by (simp_all add: run_defs fs_odd_def)
  have side: "?pd \<noteq> ?od \<and> list_all file_name [''license'', ''licenses'']"
    by (simp add: file_name_def)
  have src: "lookup (fs (fst ?st1)) (join ?pd [''license'']) = Some (File [77])
      \<and> \<not> is_dir (fs (fst ?st1)) (join ?od [''license''])"
    by (simp add: run_defs fs_odd_def)
  have dir: "\<not> is_file (fs (fst ?st1)) (join ?pd [''licenses''])
      \<or> is_dir (fs (fst ?st1)) (join ?od [''licenses''])"
    by (simp add: run_defs fs_odd_def)
  have enc: "utf8_encode (utf8_decode [77]) = [77]"
    by (simp add: run_defs)
  have j: "join ?od [''license''] = [''proj'', ''docs-deps'', ''foo'', ''license'']"
    by (simp add: run_defs)
  from copy_failures_keep_going [OF m pd od st1 lfs,
      where rest = "[]" and c = "\<lparr>copiedCount = 0, skippedCount = 0\<rparr>"]
  obtain w' k where p: "processDependency linux [''proj''] ''foo'' [''proj'', ''docs-deps''] False ?w
        = Inr (w', k)"
    and R: "\<forall>e. fileExists ?fs1 (join ?pd [''README.md''])
                  \<and> copyText ?fs1 (join ?pd [''README.md'']) (join ?od [''README.md'']) = Inl e
                \<longrightarrow> Stderr (FailedReadme ''foo'' e) \<in> set (console w')"
    and E: "?pd \<noteq> ?od \<and> list_all file_name [''license'', ''licenses''] \<longrightarrow>
               (\<forall>lf\<in>set [''license'', ''licenses''].
                  (\<forall>bytes. lookup (fs (fst ?st1)) (join ?pd [lf]) = Some (File bytes)
                       \<and> \<not> is_dir (fs (fst ?st1)) (join ?od [lf])
                     \<longrightarrow> lookup (fs w') (join ?od [lf])
                           = Some (File (utf8_encode (utf8_decode bytes))))
                \<and> (\<not> is_file (fs (fst ?st1)) (join ?pd [lf])
                       \<or> is_dir (fs (fst ?st1)) (join ?od [lf])
                     \<longrightarrow> (\<exists>e. Stderr (FailedLicense lf ''foo'' e) \<in> set (console w'))))"
    by (elim exE conjE) (rule that; assumption)
  have 1: "Stderr (FailedReadme ''foo'' EISDIR) \<in> set (console w')"
    using R ex fail by blast
  have each: "\<forall>lf\<in>set [''license'', ''licenses''].
                  (\<forall>bytes. lookup (fs (fst ?st1)) (join ?pd [lf]) = Some (File bytes)
                       \<and> \<not> is_dir (fs (fst ?st1)) (join ?od [lf])
                     \<longrightarrow> lookup (fs w') (join ?od [lf])
                           = Some (File (utf8_encode (utf8_decode bytes))))
                \<and> (\<not> is_file (fs (fst ?st1)) (join ?pd [lf])
                       \<or> is_dir (fs (fst ?st1)) (join ?od [lf])
                     \<longrightarrow> (\<exists>e. Stderr (FailedLicense lf ''foo'' e) \<in> set (console w')))"
    using E side by blast
  have "lookup (fs w') (join ?od [''license'']) = Some (File (utf8_encode (utf8_decode [77])))"
    using each src by (simp del: fst_conv)
  then have 2: "lookup (fs w') [''proj'', ''docs-deps'', ''foo'', ''license''] = Some (File [77])"
    unfolding enc j .
  have 3: "\<exists>e. Stderr (FailedLicense ''licenses'' ''foo'' e) \<in> set (console w')"
    using each dir by (simp del: fst_conv)
  show ?thesis
    using r lfs p 1 2 3 by (simp only: fst_conv world.simps) blast
qed

subsection \<open>A license search that fails\<close>

text \<open>
  Claim C8. Suppose the search for license files fails: \<^verbatim>\<open>glob\<close> throws, or the package directory
  is not there when the search runs (on a platform whose \<^verbatim>\<open>glob\<close> then yields nothing without
  throwing, the outcome is the same). Then \<^verbatim>\<open>getLicenseFiles\<close> returns no names and
  \<^verbatim>\<open>processDependency\<close> returns normally, with the state and the count that the README step
  left. When that count is zero, as it is when there is no \<^verbatim>\<open>README.md\<close> either, the loop counts
  the package as skipped and goes on with the next one.
\<close>

theorem failed_license_search_is_empty:
  assumes m: "mkdir pf (fs w) (join outDirPath [packageName]) = Inr fs1"
    and st1: "st1 = copyReadme packageName (join projectRoot [''node_modules'', packageName])
                      (join outDirPath [packageName]) verb (w\<lparr>fs := fs1\<rparr>, 0)"
    and g: "(\<exists>e. glob pf (fs (fst st1)) ''licen[cs]e*''
                    (join projectRoot [''node_modules'', packageName]) = Inl e)
            \<or> \<not> is_dir (fs (fst st1)) (join projectRoot [''node_modules'', packageName])"
    and w': "w' = (if snd st1 = 0 \<and> verb then console_log (NoFilesFound packageName) (fst st1)
                   else fst st1)"
  shows "getLicenseFiles pf (fs (fst st1)) (join projectRoot [''node_modules'', packageName]) = []
       \<and> processDependency pf projectRoot packageName outDirPath verb w = Inr (w', snd st1)
       \<and> (\<not> fileExists fs1 (join (join projectRoot [''node_modules'', packageName]) [''README.md''])
            \<longrightarrow> snd st1 = 0 \<and> fs w' = fs1)
       \<and> (snd st1 = 0 \<longrightarrow>
            packageLoop pf projectRoot outDirPath verb (packageName # rest) (w, c)
              = packageLoop pf projectRoot outDirPath verb rest
                  (w', c\<lparr>skippedCount := skippedCount c + 1\<rparr>))"
proof -
  let ?pd = "join projectRoot [''node_modules'', packageName]"
  have l: "getLicenseFiles pf (fs (fst st1)) ?pd = []"
    using g by (auto simp: getLicenseFiles_def glob_def)
  have r: "processDependency pf projectRoot packageName outDirPath verb w = Inr (w', snd st1)"
    using l unfolding st1 w'
    by (subst processDependency_Inr_eq [OF m refl refl]) (simp only: copyLicenses.simps)
  have n: "snd st1 = 0 \<and> fs w' = fs1" if "\<not> fileExists fs1 (join ?pd [''README.md''])"
    using that by (simp add: st1 w' copyReadme_def Let_def console_log_def)
  have p: "packageLoop pf projectRoot outDirPath verb (packageName # rest) (w, c)
      = packageLoop pf projectRoot outDirPath verb rest (w', c\<lparr>skippedCount := skippedCount c + 1\<rparr>)"
    if "snd st1 = 0"
    using r that by simp
  show ?thesis using l r n p by blast
qed

theorem failed_license_search_is_empty_witness:
  "\<not> is_dir (fs_bare @ [([''proj'', ''docs-deps''], Dir), ([''proj'', ''docs-deps'', ''foo''], Dir)])
       (join [''proj''] [''node_modules'', ''foo''])
   \<and> getLicenseFiles linux
       (fs_bare @ [([''proj'', ''docs-deps''], Dir), ([''proj'', ''docs-deps'', ''foo''], Dir)])
       (join [''proj''] [''node_modules'', ''foo'']) = []
   \<and> processDependency linux [''proj''] ''foo'' [''proj'', ''docs-deps''] False
       \<lparr>fs = fs_bare @ [([''proj'', ''docs-deps''], Dir)], console = []\<rparr>
     = Inr (\<lparr>fs = fs_bare @ [([''proj'', ''docs-deps''], Dir),
                             ([''proj'', ''docs-deps'', ''foo''], Dir)], console = []\<rparr>, 0)
   \<and> packageLoop linux [''proj''] [''proj'', ''docs-deps''] False [''foo'']
       (\<lparr>fs = fs_bare @ [([''proj'', ''docs-deps''], Dir)], console = []\<rparr>,
        \<lparr>copiedCount = 0, skippedCount = 0\<rparr>)
     = (None, \<lparr>fs = fs_bare @ [([''proj'', ''docs-deps''], Dir),
                               ([''proj'', ''docs-deps'', ''foo''], Dir)], console = []\<rparr>,
              \<lparr>copiedCount = 0, skippedCount = 1\<rparr>)"
proof -
  let ?fs0 = "fs_bare @ [([''proj'', ''docs-deps''], Dir)]"
  let ?fs1 = "fs_bare @ [([''proj'', ''docs-deps''], Dir), ([''proj'', ''docs-deps'', ''foo''], Dir)]"
  let ?st1 = "(\<lparr>fs = ?fs1, console = []\<rparr>, 0::nat)"
  have m: "mkdir linux (fs \<lparr>fs = ?fs0, console = []\<rparr>) (join [''proj'', ''docs-deps''] [''foo''])
      = Inr ?fs1"
    by (simp add: run_defs fs_bare_def)
  have st1: "?st1 = copyReadme ''foo'' (join [''proj''] [''node_modules'', ''foo''])
      (join [''proj'', ''docs-deps''] [''foo'']) False
      (\<lparr>fs = ?fs0, console = []\<rparr>\<lparr>fs := ?fs1\<rparr>, 0)"
    by (simp add: run_defs fs_bare_def)
  have d: "\<not> is_dir ?fs1 (join [''proj''] [''node_modules'', ''foo''])"
    by (simp add: run_defs fs_bare_def)
  have g: "(\<exists>e. glob linux (fs (fst ?st1)) ''licen[cs]e*''
                  (join [''proj''] [''node_modules'', ''foo'']) = Inl e)
         \<or> \<not> is_dir (fs (fst ?st1)) (join [''proj''] [''node_modules'', ''foo''])"
    using d by simp
  have w': "\<lparr>fs = ?fs1, console = []\<rparr>
      = (if snd ?st1 = 0 \<and> False then console_log (NoFilesFound ''foo'') (fst ?st1) else fst ?st1)"
    by simp
  have r: "processDependency linux [''proj''] ''foo'' [''proj'', ''docs-deps''] False
       \<lparr>fs = ?fs0, console = []\<rparr> = Inr (\<lparr>fs = ?fs1, console = []\<rparr>, 0)"
    by (simp add: run_defs fs_bare_def)
  have l: "packageLoop linux [''proj''] [''proj'', ''docs-deps''] False [''foo'']
       (\<lparr>fs = ?fs0, console = []\<rparr>, \<lparr>copiedCount = 0, skippedCount = 0\<rparr>)
     = (None, \<lparr>fs = ?fs1, console = []\<rparr>, \<lparr>copiedCount = 0, skippedCount = 1\<rparr>)"
    by (simp add: run_defs fs_bare_def)
  show ?thesis
    using failed_license_search_is_empty [OF m st1 g w',
        where c = "\<lparr>copiedCount = 0, skippedCount = 0\<rparr>" and rest = "[]"] d r l
    by simp
qed

subsection \<open>The summary line\<close>

text \<open>
  Claim C10, amended. Take a run that finds at least one package name and does not reject,
  which is a run in which no \<^verbatim>\<open>mkdir\<close> throws. Its loop calls \<^verbatim>\<open>processDependency\<close> once for
  each name of the merged set, and every call returns. \<open>copiedCount\<close> is the number of calls
  that returned a count greater than zero and \<open>skippedCount\<close> the number of calls that returned
  zero, so that the two add up to the number of distinct names; and the run prints exactly one
  summary line, after everything the packages printed, reporting these two numbers and the
  output path.
\<close>

theorem every_package_classified_once:
  assumes rm: "readManifest JSON_parse projectRoot (fs w) = Inr deps"
    and ne: "Object_keys deps \<noteq> []"
    and run: "extractNpmReadmes pf JSON_parse projectRoot options w = (None, w')"
  shows "\<exists>fs1 ms.
           mkdir pf (fs w) (join projectRoot [outdir options]) = Inr fs1
         \<and> (let outDirPath = join projectRoot [outdir options];
                 cs = calls pf projectRoot outDirPath (verbose options) (Object_keys deps)
                        (w\<lparr>fs := fs1\<rparr>);
                 copied = filter (\<lambda>x. case filesCopied pf projectRoot outDirPath (verbose options) x of
                                           Some k \<Rightarrow> 0 < k | None \<Rightarrow> False) cs;
                 skipped = filter (\<lambda>x. filesCopied pf projectRoot outDirPath (verbose options) x
                                           = Some 0) cs
             in map fst cs = Object_keys deps
              \<and> list_all (\<lambda>x. filesCopied pf projectRoot outDirPath (verbose options) x \<noteq> None) cs
              \<and> length copied + length skipped = card (set (Object_keys deps))
              \<and> console w' = console w @ ms
                                @ [Stdout (Processed (length copied) (length skipped) outDirPath)]
              \<and> list_all (\<lambda>l. \<not> is_summary l) ms)"
proof -
  let ?out = "join projectRoot [outdir options]"
  let ?v = "verbose options"
  obtain fs1 where m: "mkdir pf (fs w) ?out = Inr fs1"
    using run rm ne by (cases "mkdir pf (fs w) ?out") (simp_all add: extractNpmReadmes_def Let_def)
  let ?st0 = "(w\<lparr>fs := fs1\<rparr>, \<lparr>copiedCount = 0, skippedCount = 0\<rparr>)"
  let ?cs = "calls pf projectRoot ?out ?v (Object_keys deps) (w\<lparr>fs := fs1\<rparr>)"
  let ?P = "\<lambda>x. case filesCopied pf projectRoot ?out ?v x of Some k \<Rightarrow> 0 < k | None \<Rightarrow> False"
  let ?Q = "\<lambda>x. filesCopied pf projectRoot ?out ?v x = Some 0"
  obtain r st where l: "packageLoop pf projectRoot ?out ?v (Object_keys deps) ?st0 = (r, st)"
    by (cases "packageLoop pf projectRoot ?out ?v (Object_keys deps) ?st0")
  have r: "r = None"
    using run rm ne m l by (cases r) (simp_all add: extractNpmReadmes_def Let_def)
  have w': "w' = console_log (Processed (copiedCount (snd st)) (skippedCount (snd st)) ?out) (fst st)"
    using run rm ne m l r by (simp add: extractNpmReadmes_def Let_def)
  have all: "list_all (\<lambda>x. filesCopied pf projectRoot ?out ?v x \<noteq> None) ?cs"
    using packageLoop_throws [of pf projectRoot ?out ?v "Object_keys deps" ?st0] l r by simp
  then have names: "map fst ?cs = Object_keys deps" by (rule calls_complete)
  have c: "copiedCount (snd st) = length (filter ?P ?cs)"
    using packageLoop_copiedCount [of pf projectRoot ?out ?v "Object_keys deps" ?st0] l by simp
  have s: "skippedCount (snd st) = length (filter ?Q ?cs)"
    using packageLoop_skippedCount [of pf projectRoot ?out ?v "Object_keys deps" ?st0] l by simp
  have "filter ?Q ?cs = filter (\<lambda>x. \<not> ?P x) ?cs"
    using all by (intro filter_cong refl) (auto simp: list_all_iff)
  then have "length (filter ?P ?cs) + length (filter ?Q ?cs) = length ?cs"
    by (simp add: sum_length_filter_compl)
  also have "\<dots> = length (Object_keys deps)"
    using names by (metis length_map)
  also have "\<dots> = card (set (Object_keys deps))"
    using readManifest_distinct [OF rm] by (simp add: distinct_card)
  finally have sum: "length (filter ?P ?cs) + length (filter ?Q ?cs) = card (set (Object_keys deps))" .
  obtain ms where ms: "console (fst st) = console w @ ms" "list_all (\<lambda>l. \<not> is_summary l) ms"
    using packageLoop_console [of pf projectRoot ?out ?v "Object_keys deps" ?st0] l by auto
  have con: "console w' = console w @ ms
      @ [Stdout (Processed (length (filter ?P ?cs)) (length (filter ?Q ?cs)) ?out)]"
    using ms(1) by (simp add: w' c s console_log_def)
  show ?thesis
    unfolding Let_def using m names all sum con ms(2) by blast
qed

theorem every_package_classified_once_witness:
  "extractNpmReadmes linux (\<lambda>s. Some manifest_mixed) [''proj''] defaults
     \<lparr>fs = fs_leftpad, console = []\<rparr>
   = (None, \<lparr>fs = fs_leftpad @
                 [([''proj'', ''docs-deps''], Dir),
                  ([''proj'', ''docs-deps'', ''left-pad''], Dir),
                  ([''proj'', ''docs-deps'', ''left-pad'', ''README.md''], File [104, 105]),
                  ([''proj'', ''docs-deps'', ''left-pad'', ''license.md''], File [109, 105, 116]),
                  ([''proj'', ''docs-deps'', ''foo''], Dir)],
             console = [Stdout (Processed 1 1 [''proj'', ''docs-deps''])]\<rparr>)
   \<and> map fst (calls linux [''proj''] [''proj'', ''docs-deps''] False [''left-pad'', ''foo'']
                \<lparr>fs = fs_leftpad @ [([''proj'', ''docs-deps''], Dir)], console = []\<rparr>)
       = [''left-pad'', ''foo'']
   \<and> length (filter (\<lambda>x. case filesCopied linux [''proj''] [''proj'', ''docs-deps''] False x of
                            Some k \<Rightarrow> 0 < k | None \<Rightarrow> False)
        (calls linux [''proj''] [''proj'', ''docs-deps''] False [''left-pad'', ''foo'']
           \<lparr>fs = fs_leftpad @ [([''proj'', ''docs-deps''], Dir)], console = []\<rparr>)) = 1
   \<and> length (filter (\<lambda>x. filesCopied linux [''proj''] [''proj'', ''docs-deps''] False x = Some 0)
        (calls linux [''proj''] [''proj'', ''docs-deps''] False [''left-pad'', ''foo'']
           \<lparr>fs = fs_leftpad @ [([''proj'', ''docs-deps''], Dir)], console = []\<rparr>)) = 1"
proof -
  let ?w = "\<lparr>fs = fs_leftpad, console = []\<rparr>"
  let ?cs = "calls linux [''proj''] [''proj'', ''docs-deps''] False [''left-pad'', ''foo'']
               \<lparr>fs = fs_leftpad @ [([''proj'', ''docs-deps''], Dir)], console = []\<rparr>"
  have run: "extractNpmReadmes linux (\<lambda>s. Some manifest_mixed) [''proj''] defaults ?w
      = (None, \<lparr>fs = fs_leftpad @
                 [([''proj'', ''docs-deps''], Dir),
                  ([''proj'', ''docs-deps'', ''left-pad''], Dir),
                  ([''proj'', ''docs-deps'', ''left-pad'', ''README.md''], File [104, 105]),
                  ([''proj'', ''docs-deps'', ''left-pad'', ''license.md''], File [109, 105, 116]),
                  ([''proj'', ''docs-deps'', ''foo''], Dir)],
             console = [Stdout (Processed 1 1 [''proj'', ''docs-deps''])]\<rparr>)"
    by (simp add: run_defs fs_leftpad_def manifest_mixed_def)
  have rm: "readManifest (\<lambda>s. Some manifest_mixed) [''proj''] (fs ?w)
      = Inr [(''left-pad'', JString ''^1.0.0''), (''foo'', JString ''1.0.0'')]"
    by (simp add: run_defs fs_leftpad_def manifest_mixed_def)
  have k: "Object_keys [(''left-pad'', JString ''^1.0.0''), (''foo'', JString ''1.0.0'')]
      = [''left-pad'', ''foo'']"
    by (simp add: run_defs)
  have ne: "Object_keys [(''left-pad'', JString ''^1.0.0''), (''foo'', JString ''1.0.0'')] \<noteq> []"
    by (simp add: k)
  have j: "join [''proj''] [outdir defaults] = [''proj'', ''docs-deps'']" "verbose defaults = False"
    by (simp_all add: run_defs)
  have m: "mkdir linux fs_leftpad [''proj'', ''docs-deps'']
      = Inr (fs_leftpad @ [([''proj'', ''docs-deps''], Dir)])"
    by (simp add: run_defs fs_leftpad_def)
  let ?P = "\<lambda>x. case filesCopied linux [''proj''] [''proj'', ''docs-deps''] False x of
                  None \<Rightarrow> False | Some k \<Rightarrow> 0 < k"
  let ?Q = "\<lambda>x. filesCopied linux [''proj''] [''proj'', ''docs-deps''] False x = Some 0"
  let ?w' = "\<lparr>fs = fs_leftpad @
                 [([''proj'', ''docs-deps''], Dir),
                  ([''proj'', ''docs-deps'', ''left-pad''], Dir),
                  ([''proj'', ''docs-deps'', ''left-pad'', ''README.md''], File [104, 105]),
                  ([''proj'', ''docs-deps'', ''left-pad'', ''license.md''], File [109, 105, 116]),
                  ([''proj'', ''docs-deps'', ''foo''], Dir)],
             console = [Stdout (Processed 1 1 [''proj'', ''docs-deps''])]\<rparr>"
  from every_package_classified_once [OF rm ne run, unfolded Let_def k j]
  obtain fs1 ms where m1: "mkdir linux (fs ?w) [''proj'', ''docs-deps''] = Inr fs1"
    and c: "map fst (calls linux [''proj''] [''proj'', ''docs-deps''] False [''left-pad'', ''foo'']
                       (?w\<lparr>fs := fs1\<rparr>)) = [''left-pad'', ''foo'']"
    and s: "console ?w' = console ?w @ ms @ [Stdout (Processed
           (length (filter ?P
              (calls linux [''proj''] [''proj'', ''docs-deps''] False [''left-pad'', ''foo'']
                 (?w\<lparr>fs := fs1\<rparr>))))
           (length (filter ?Q
              (calls linux [''proj''] [''proj'', ''docs-deps''] False [''left-pad'', ''foo'']
                 (?w\<lparr>fs := fs1\<rparr>))))
           [''proj'', ''docs-deps''])]"
    by (elim exE conjE) (rule that; assumption)
  have fs1: "?w\<lparr>fs := fs1\<rparr> = \<lparr>fs = fs_leftpad @ [([''proj'', ''docs-deps''], Dir)], console = []\<rparr>"
    using m1 by (simp add: m)
  have "last (console ?w') = Stdout (Processed (length (filter ?P ?cs)) (length (filter ?Q ?cs))
           [''proj'', ''docs-deps''])"
    unfolding s fs1 by (simp only: last_appendR last_snoc append_assoc [symmetric])
  then have n: "length (filter ?P ?cs) = 1 \<and> length (filter ?Q ?cs) = 1"
    by (simp del: calls.simps)
  have c': "map fst ?cs = [''left-pad'', ''foo'']"
    using c unfolding fs1 .
  show ?thesis
    using n c' run by (simp only: simp_thms)
qed

text \<open>
  The claim as first stated fails. This run processes the package \<^verbatim>\<open>a\<close> and copies its README;
  then the call for \<^verbatim>\<open>b\<close> throws, because \<^verbatim>\<open>docs-deps/b\<close> is a regular file. The merged set has
  three names, one package has been classified, and no summary line is printed.
\<close>

theorem no_summary_when_run_stops:
  "Object_keys [(''a'', JString ''1''), (''b'', JString ''2''), (''c'', JString ''1'')]
     = [''a'', ''b'', ''c'']
   \<and> readManifest (\<lambda>s. Some manifest_abc) [''proj''] fs_abc
       = Inr [(''a'', JString ''1''), (''b'', JString ''2''), (''c'', JString ''1'')]
   \<and> filesCopied linux [''proj''] [''proj'', ''docs-deps''] False
        (''a'', \<lparr>fs = fs_abc, console = []\<rparr>) = Some 1
   \<and> main linux (\<lambda>s. Some manifest_abc) [''proj''] defaults \<lparr>fs = fs_abc, console = []\<rparr>
       = (1, \<lparr>fs = fs_abc @
                 [([''proj'', ''docs-deps'', ''a''], Dir),
                  ([''proj'', ''docs-deps'', ''a'', ''README.md''], File [104, 105])],
              console = [Stderr (ErrorExtracting EEXIST)]\<rparr>)
   \<and> \<not> is_summary (Stderr (ErrorExtracting EEXIST))"
proof -
  have f: "filesCopied linux [''proj''] [''proj'', ''docs-deps''] False
        (''a'', \<lparr>fs = fs_abc, console = []\<rparr>) = Some 1"
    by (simp add: run_defs fs_abc_def)
  show ?thesis
    by (simp add: manifest_abc_read run_abc f)
qed

end
